theory Spec2Isabelle
  imports Main "HOL-Library.AList"
begin

section \<open>Offline conda/pip bundle builder: \<^verbatim>\<open>conda_package_gatherer.py\<close>\<close>

text \<open>
  The module has four functions: \<^verbatim>\<open>download_and_save_package\<close>, \<^verbatim>\<open>fetch_packages\<close>,
  \<^verbatim>\<open>solve_for_packages\<close> and \<^verbatim>\<open>generate_offline_install_package\<close>. Each is embedded
  below under its own name. Everything the module reaches outside itself (the YAML
  loader, conda's \<^verbatim>\<open>MatchSpec\<close> and \<^verbatim>\<open>Solver\<close>, \<^verbatim>\<open>conda info --json\<close>, \<^verbatim>\<open>requests.get\<close>,
  the pip subprocess, the operating system) is a field of the record \<open>env\<close>; what the
  module does to the disk and which outside services it calls is threaded through the
  record \<open>state\<close>.
\<close>

subsection \<open>Python values\<close>

text \<open>
  The values of the input mapping and of a mapping entry of the descriptor: \<^verbatim>\<open>None\<close> or a
  list of specifier strings. A dictionary is an association list read by key; Python's
  \<^verbatim>\<open>==\<close> on two dictionaries compares them key by key, whatever the order.
\<close>

datatype pyval = PyNone | PyList "string list"

type_synonym pydict = "(string \<times> pyval) list"

text \<open>\<^verbatim>\<open>d.get(k)\<close>: \<^verbatim>\<open>None\<close> for a missing key.\<close>

definition dict_get :: "pydict \<Rightarrow> string \<Rightarrow> pyval" where
  "dict_get d k = (case map_of d k of None \<Rightarrow> PyNone | Some v \<Rightarrow> v)"

definition dict_eq :: "pydict \<Rightarrow> pydict \<Rightarrow> bool" where
  "dict_eq a b = list_all (\<lambda>k. map_of a k = map_of b k) (map fst a @ map fst b)"

text \<open>Truthiness, as \<^verbatim>\<open>if pip_dependencies:\<close> tests it: a non-empty list.\<close>

fun truthy :: "pyval \<Rightarrow> bool" where
  "truthy PyNone = False"
| "truthy (PyList xs) = (xs \<noteq> [])"

text \<open>The elements a \<^verbatim>\<open>for\<close> loop or a \<^verbatim>\<open>*\<close> unpacking sees (only used where the value is truthy).\<close>

fun items :: "pyval \<Rightarrow> string list" where
  "items PyNone = []"
| "items (PyList xs) = xs"

text \<open>
  An element of the descriptor's \<^verbatim>\<open>dependencies\<close> list: a bare string or a mapping.
\<close>

datatype entry = Spec string | Mapping pydict

text \<open>\<^verbatim>\<open>==\<close> on two elements: a string never equals a dictionary.\<close>

fun entry_eq :: "entry \<Rightarrow> entry \<Rightarrow> bool" where
  "entry_eq (Spec a) (Spec b) = (a = b)"
| "entry_eq (Mapping a) (Mapping b) = dict_eq a b"
| "entry_eq _ _ = False"

text \<open>The first parameter of \<^verbatim>\<open>generate_offline_install_package\<close>: \<^verbatim>\<open>Union[Dict[str, List], str]\<close>.\<close>

datatype packages_arg = DescriptorPath string | RawMapping pydict

text \<open>What \<^verbatim>\<open>json.loads\<close> gives for a prefix field of \<^verbatim>\<open>conda info --json\<close>: \<^verbatim>\<open>None\<close> (JSON null) or a string.\<close>

datatype json = JNull | JStr string

record info =
  active_prefix :: json
  conda_prefix :: json
  channels :: "string list"

text \<open>A record of the solver's result: the module reads \<^verbatim>\<open>pkg.url\<close> and \<^verbatim>\<open>pkg.fn\<close>.\<close>

record pkg =
  url :: string
  fn :: string

subsection \<open>Errors, the disk and the observable steps\<close>

datatype error =
    DescriptorError
  | ValueError
  | InvalidMatchSpec
  | CondaInfoError
  | SolverError
  | ConnectionError
  | FileExistsError
  | OSError
  | CalledProcessError nat
  | ArchiveError

datatype node = Dir | File string | ZipOf string

text \<open>Who performs a file write: the control thread or a worker of the pool.\<close>

datatype thread = Control | Worker

datatype event =
    MadeDir string
  | CondaInfoQueried
  | SolverInvoked json "string list" "string list"
  | Submitted string string
  | TaskDone string string
  | TaskFailed string string error
  | PipInvoked "string list"
  | FileWritten thread string string
  | Archived string

record state =
  fs :: "string \<rightharpoonup> node"
  trace :: "event list"

text \<open>
  The collaborators. \<open>read_descriptor\<close> stands for \<^verbatim>\<open>open\<close>, \<^verbatim>\<open>yaml.safe_load\<close> and
  \<^verbatim>\<open>data['dependencies']\<close>; \<open>match_spec\<close> for \<^verbatim>\<open>MatchSpec(p)\<close>; \<open>conda_info\<close> for
  \<^verbatim>\<open>json.loads(conda.run_command(conda.Commands.INFO, '--json')[0])\<close>; \<open>solve_for_diff\<close> for
  \<^verbatim>\<open>Solver(prefix, channels, specs_to_add=...).solve_for_diff()\<close>; \<open>http_get\<close> for
  \<^verbatim>\<open>requests.get(url).content\<close>; \<open>run_pip\<close> for the exit status of the subprocess;
  \<open>writable\<close> for whether the operating system lets the process create the path;
  \<open>worker_order\<close> picks the order in which the pool's workers finish.
\<close>

record env =
  read_descriptor :: "string \<Rightarrow> error + entry list"
  match_spec :: "entry \<Rightarrow> error + string"
  conda_info :: "error + info"
  solve_for_diff :: "json \<Rightarrow> string list \<Rightarrow> string list \<Rightarrow> error + pkg list \<times> pkg list"
  http_get :: "string \<Rightarrow> error + string"
  worker_order :: "nat list"
  run_pip :: "string list \<Rightarrow> nat"
  writable :: "string \<Rightarrow> bool"
  abspath :: "string \<Rightarrow> string"
  os_name :: string
  sys_executable :: string

subsection \<open>Actions: a result or an exception, and the state left behind\<close>

type_synonym 'a action = "state \<Rightarrow> (error + 'a) \<times> state"

definition returning :: "'a \<Rightarrow> 'a action" where
  "returning x s = (Inr x, s)"

definition raising :: "error \<Rightarrow> 'a action" where
  "raising e s = (Inl e, s)"

definition from_result :: "error + 'a \<Rightarrow> 'a action" where
  "from_result r s = (r, s)"

text \<open>Sequencing: an exception of the first action skips the rest and keeps the state reached.\<close>

definition and_then :: "'a action \<Rightarrow> ('a \<Rightarrow> 'b action) \<Rightarrow> 'b action" where
  "and_then m f s = (case m s of (Inl e, s') \<Rightarrow> (Inl e, s') | (Inr x, s') \<Rightarrow> f x s')"

definition emit :: "event \<Rightarrow> unit action" where
  "emit ev s = (Inr (), s\<lparr>trace := trace s @ [ev]\<rparr>)"

subsection \<open>Operating system calls\<close>

abbreviation NL :: string where
  "NL \<equiv> [CHR 0x0A]"

text \<open>
  \<^verbatim>\<open>os.path.join(a, b)\<close> as \<^verbatim>\<open>posixpath\<close> computes it. Paths are joined this way on every
  host of the model, also where \<open>os_name\<close> is \<^verbatim>\<open>nt\<close>; only the script's name and text
  depend on \<open>os_name\<close>.
\<close>

definition path_join :: "string \<Rightarrow> string \<Rightarrow> string" where
  "path_join a b =
     (if b \<noteq> [] \<and> hd b = CHR ''/'' then b
      else if a = [] \<or> last a = CHR ''/'' then a @ b
      else a @ ''/'' @ b)"

text \<open>
  \<^verbatim>\<open>os.makedirs(name, exist_ok=exist_ok)\<close>: an existing directory is accepted only with
  \<open>exist_ok\<close>, an existing file never. The disk records the directory itself, not the
  ancestors the call creates on the way; whether the operating system allows the
  creation is asked of \<open>writable\<close>.
\<close>

definition makedirs :: "env \<Rightarrow> string \<Rightarrow> bool \<Rightarrow> unit action" where
  "makedirs env name exist_ok s =
     (case fs s name of
        Some Dir \<Rightarrow> if exist_ok then (Inr (), s) else (Inl FileExistsError, s)
      | Some _ \<Rightarrow> (Inl FileExistsError, s)
      | None \<Rightarrow>
          if writable env name
          then (Inr (), s\<lparr>fs := (fs s)(name \<mapsto> Dir), trace := trace s @ [MadeDir name]\<rparr>)
          else (Inl OSError, s))"

text \<open>
  The directory named in a path, as \<^verbatim>\<open>posixpath\<close> computes it: \<open>dir_part\<close> is everything up
  to and including the last slash, and \<open>dirname\<close>, which is \<^verbatim>\<open>os.path.dirname(p)\<close>, is the
  same with the trailing slashes removed unless nothing but slashes is left.
\<close>

definition dir_part :: "string \<Rightarrow> string" where
  "dir_part p = rev (dropWhile (\<lambda>c. c \<noteq> CHR ''/'') (rev p))"

definition dirname :: "string \<Rightarrow> string" where
  "dirname p =
     (if dir_part p \<noteq> [] \<and> \<not> list_all (\<lambda>c. c = CHR ''/'') (dir_part p)
      then rev (dropWhile (\<lambda>c. c = CHR ''/'') (rev (dir_part p)))
      else dir_part p)"

text \<open>
  \<^verbatim>\<open>with open(path, 'w') as f: f.write(...)\<close> with everything written in the block: the file
  is created or truncated and holds the concatenation of the writes. Opening fails when
  the directory that is to hold the file does not exist or is a file
  (\<^verbatim>\<open>FileNotFoundError\<close>, \<^verbatim>\<open>NotADirectoryError\<close>), when the path is a directory
  (\<^verbatim>\<open>IsADirectoryError\<close>), and wherever the operating system refuses (\<open>writable\<close>); all of
  these are subclasses of \<^verbatim>\<open>OSError\<close> and the model raises them under that name. The disk
  is read under the path as the program spells it, so the directory that holds the file
  is looked up under its name with and without the trailing slash.
\<close>

definition open_and_write :: "env \<Rightarrow> thread \<Rightarrow> string \<Rightarrow> string \<Rightarrow> unit action" where
  "open_and_write env who path content s =
     (if (fs s (dirname path) = Some Dir \<or> fs s (dir_part path) = Some Dir)
         \<and> fs s path \<noteq> Some Dir \<and> writable env path
      then (Inr (), s\<lparr>fs := (fs s)(path \<mapsto> File content),
                       trace := trace s @ [FileWritten who path content]\<rparr>)
      else (Inl OSError, s))"

text \<open>\<^verbatim>\<open>subprocess.check_call(argv)\<close>: a non-zero exit status raises.\<close>

definition check_call :: "env \<Rightarrow> string list \<Rightarrow> unit action" where
  "check_call env argv =
     and_then (emit (PipInvoked argv)) (\<lambda>_.
       if run_pip env argv = 0 then returning () else raising (CalledProcessError (run_pip env argv)))"

text \<open>\<^verbatim>\<open>shutil.make_archive(base, 'zip', root)\<close> writes \<^verbatim>\<open>base.zip\<close>.\<close>

definition make_archive :: "env \<Rightarrow> string \<Rightarrow> string \<Rightarrow> unit action" where
  "make_archive env base root s =
     (if writable env (base @ ''.zip'')
      then (Inr (), s\<lparr>fs := (fs s)(base @ ''.zip'' \<mapsto> ZipOf root),
                       trace := trace s @ [Archived (base @ ''.zip'')]\<rparr>)
      else (Inl ArchiveError, s))"

subsection \<open>\<^verbatim>\<open>download_and_save_package\<close> (lines 19-35)\<close>

definition download_and_save_package :: "env \<Rightarrow> string \<Rightarrow> string \<Rightarrow> string \<Rightarrow> unit action" where
  "download_and_save_package env u package_name download_directory =
     and_then (from_result (http_get env u)) (\<lambda>file.
       open_and_write env Worker (path_join download_directory package_name) file)"

subsection \<open>\<^verbatim>\<open>fetch_packages\<close> (lines 38-49)\<close>

text \<open>
  \<^verbatim>\<open>executor.submit\<close> returns a future that the loop drops. A worker runs the task; what the
  task raises is stored in its future and nowhere else. Leaving the \<^verbatim>\<open>with\<close> block joins the
  workers. The order in which tasks finish is not fixed by the program: \<open>arrange\<close> builds it
  from \<open>worker_order\<close> by inserting each task at the position the next number picks, so every
  number list gives a permutation and every permutation comes from some number list.
  In the model the loop dispatches every task, then each task runs as one step (request,
  then write) in that order, and \<^verbatim>\<open>fetch_packages\<close> returns when the last one has finished.
  The calls of \<^verbatim>\<open>logging.info\<close> are left out.
\<close>

primrec arrange :: "nat list \<Rightarrow> 'a list \<Rightarrow> 'a list" where
  "arrange ns [] = []"
| "arrange ns (x # xs) =
     (let r = arrange (tl ns) xs;
          k = (case ns of [] \<Rightarrow> 0 | n # _ \<Rightarrow> n mod Suc (length r))
      in take k r @ x # drop k r)"

definition run_task :: "env \<Rightarrow> string \<Rightarrow> string \<times> string \<Rightarrow> state \<Rightarrow> state" where
  "run_task env download_directory t s =
     (case download_and_save_package env (fst t) (snd t) download_directory s of
        (Inl e, s') \<Rightarrow> s'\<lparr>trace := trace s' @ [TaskFailed (fst t) (snd t) e]\<rparr>
      | (Inr _, s') \<Rightarrow> s'\<lparr>trace := trace s' @ [TaskDone (fst t) (snd t)]\<rparr>)"

definition fetch_packages :: "env \<Rightarrow> (string \<times> string) list \<Rightarrow> string \<Rightarrow> unit action" where
  "fetch_packages env urls download_directory s =
     (let submitted = s\<lparr>trace := trace s @ map (\<lambda>(u, p). Submitted u p) urls\<rparr>;
          joined = fold (run_task env download_directory) (arrange (worker_order env) urls) submitted
      in (Inr (), joined))"

subsection \<open>\<^verbatim>\<open>solve_for_packages\<close> (lines 52-64)\<close>

fun match_specs :: "env \<Rightarrow> entry list \<Rightarrow> error + string list" where
  "match_specs env [] = Inr []"
| "match_specs env (p # ps) =
     (case match_spec env p of
        Inl e \<Rightarrow> Inl e
      | Inr m \<Rightarrow> (case match_specs env ps of Inl e \<Rightarrow> Inl e | Inr ms \<Rightarrow> Inr (m # ms)))"

text \<open>Line 62: \<^verbatim>\<open>info['conda_prefix'] if info['active_prefix'] == 'null' else info['active_prefix']\<close>.\<close>

definition choose_prefix :: "info \<Rightarrow> json" where
  "choose_prefix i = (if active_prefix i = JStr ''null'' then conda_prefix i else active_prefix i)"

definition solve_for_packages :: "env \<Rightarrow> entry list \<Rightarrow> (pkg list \<times> pkg list) action" where
  "solve_for_packages env packages =
     and_then (from_result (match_specs env packages)) (\<lambda>specs_to_add.
     and_then (emit CondaInfoQueried) (\<lambda>_.
     and_then (from_result (conda_info env)) (\<lambda>i.
     and_then (emit (SolverInvoked (choose_prefix i) (channels i) specs_to_add)) (\<lambda>_.
     from_result (solve_for_diff env (choose_prefix i) (channels i) specs_to_add)))))"

subsection \<open>\<^verbatim>\<open>generate_offline_install_package\<close> (lines 67-142)\<close>

text \<open>
  Lines 91-97. The loop visits \<^verbatim>\<open>reversed(packages)\<close>; at the first dictionary whose
  \<^verbatim>\<open>get('pip')\<close> is not \<^verbatim>\<open>None\<close> it pops the key from that dictionary (which is the list's own
  element, so the list sees the change), removes from the list the first element equal to
  the dictionary as it now is, and stops.
\<close>

primrec scan_reversed :: "(nat \<times> entry) list \<Rightarrow> (nat \<times> pydict) option" where
  "scan_reversed [] = None"
| "scan_reversed (ip # rest) =
     (case snd ip of
        Spec _ \<Rightarrow> scan_reversed rest
      | Mapping d \<Rightarrow> if dict_get d ''pip'' \<noteq> PyNone then Some (fst ip, d) else scan_reversed rest)"

text \<open>\<^verbatim>\<open>xs.remove(x)\<close>: drops the first element equal to \<open>x\<close>; \<^verbatim>\<open>ValueError\<close> when there is none.\<close>

fun list_remove :: "entry \<Rightarrow> entry list \<Rightarrow> error + entry list" where
  "list_remove x [] = Inl ValueError"
| "list_remove x (y # ys) =
     (if entry_eq y x then Inr ys
      else (case list_remove x ys of Inl e \<Rightarrow> Inl e | Inr r \<Rightarrow> Inr (y # r)))"

definition extract_pip :: "entry list \<Rightarrow> error + entry list \<times> pyval" where
  "extract_pip packages =
     (case scan_reversed (rev (enumerate 0 packages)) of
        None \<Rightarrow> Inr (packages, PyNone)
      | Some (i, d) \<Rightarrow>
          (let pip_dependencies = dict_get d ''pip'';
               p = Mapping (AList.delete ''pip'' d)
           in case list_remove p (packages[i := p]) of
                Inl e \<Rightarrow> Inl e
              | Inr rest \<Rightarrow> Inr (rest, pip_dependencies)))"

text \<open>Lines 86-100: the conda list (\<open>None\<close> when absent) and the pip value.\<close>

definition normalize_input :: "env \<Rightarrow> packages_arg \<Rightarrow> error + entry list option \<times> pyval" where
  "normalize_input env packages =
     (case packages of
        DescriptorPath path \<Rightarrow>
          (case read_descriptor env path of
             Inl e \<Rightarrow> Inl e
           | Inr deps \<Rightarrow>
               (case extract_pip deps of
                  Inl e \<Rightarrow> Inl e
                | Inr r \<Rightarrow> Inr (Some (fst r), snd r)))
      | RawMapping m \<Rightarrow>
          Inr (case dict_get m ''conda'' of PyNone \<Rightarrow> None | PyList xs \<Rightarrow> Some (map Spec xs),
               dict_get m ''pip''))"

text \<open>
  Line 108: the dictionary comprehension. A Python dictionary keeps insertion order and
  assigning to a key already there replaces its value in place, as \<open>AList.update\<close> does.
\<close>

definition packages_to_fetch :: "pkg list \<Rightarrow> (string \<times> string) list" where
  "packages_to_fetch item_list = foldl (\<lambda>d p. AList.update (url p) (fn p) d) [] item_list"

text \<open>Line 109.\<close>

definition conda_package_listing :: "(string \<times> string) list \<Rightarrow> string list" where
  "conda_package_listing d = map (\<lambda>v. ''conda/'' @ v) (map snd d)"

text \<open>Lines 103-111.\<close>

definition conda_phase :: "env \<Rightarrow> string \<Rightarrow> bool \<Rightarrow> entry list option \<Rightarrow> string list option action" where
  "conda_phase env install_path exist_ok conda_dependencies =
     (case conda_dependencies of
        None \<Rightarrow> returning None
      | Some deps \<Rightarrow>
          and_then (makedirs env (path_join install_path ''conda'') exist_ok) (\<lambda>_.
          and_then (solve_for_packages env deps) (\<lambda>diff.
          and_then (fetch_packages env (packages_to_fetch (snd diff)) (path_join install_path ''conda'')) (\<lambda>_.
          returning (Some (conda_package_listing (packages_to_fetch (snd diff))))))))"

text \<open>Lines 112-119.\<close>

definition pip_argv :: "env \<Rightarrow> string \<Rightarrow> string list \<Rightarrow> string list" where
  "pip_argv env pip_packages_location deps =
     [sys_executable env, ''-m'', ''pip'', ''download''] @ deps
       @ [''-d'', path_join pip_packages_location ''downloaded'']"

definition pip_phase :: "env \<Rightarrow> string \<Rightarrow> bool \<Rightarrow> pyval \<Rightarrow> unit action" where
  "pip_phase env install_path exist_ok pip_dependencies =
     (if truthy pip_dependencies
      then
        and_then (makedirs env (path_join install_path ''pip'') exist_ok) (\<lambda>_.
        and_then (check_call env (pip_argv env (path_join install_path ''pip'') (items pip_dependencies))) (\<lambda>_.
        open_and_write env Control (path_join (path_join install_path ''pip'') ''requirements.txt'')
          (concat (items pip_dependencies))))
      else returning ())"

text \<open>\<^verbatim>\<open>sep.join(xs)\<close>.\<close>

fun str_join :: "string \<Rightarrow> string list \<Rightarrow> string" where
  "str_join sep [] = []"
| "str_join sep [x] = x"
| "str_join sep (x # y # r) = x @ sep @ str_join sep (y # r)"

text \<open>Lines 120-129.\<close>

definition update_file :: "string \<Rightarrow> string" where
  "update_file osn = (if osn = ''nt'' then ''update.bat'' else ''update.sh'')"

definition comment_mark :: "string \<Rightarrow> string" where
  "comment_mark osn = (if osn = ''nt'' then ''::'' else ''#'')"

definition file_mark :: "string \<Rightarrow> string" where
  "file_mark osn = (if osn = ''nt'' then [] else ''#!/bin/bash'' @ NL)"

definition command_prepend :: "string \<Rightarrow> string" where
  "command_prepend osn = (if osn = ''nt'' then ''call '' else [])"

text \<open>Lines 131-140: the writes into the script, in order.\<close>

definition script_text :: "string \<Rightarrow> string option \<Rightarrow> string list option \<Rightarrow> pyval \<Rightarrow> string" where
  "script_text osn script_preamble listing pip_dependencies =
     file_mark osn
     @ (case script_preamble of None \<Rightarrow> [] | Some pre \<Rightarrow> pre @ NL)
     @ (case listing of
          None \<Rightarrow> []
        | Some l \<Rightarrow>
            comment_mark osn @ '' install conda packages'' @ NL
            @ command_prepend osn @ ''conda install '' @ str_join '' '' l @ '' --offline'' @ NL)
     @ (if pip_dependencies \<noteq> PyNone
        then comment_mark osn @ '' install pip packages'' @ NL
             @ command_prepend osn
             @ ''pip install --no-index --find-links=pip/downloaded -r pip/requirements.txt'' @ NL
        else [])"

definition script_phase :: "env \<Rightarrow> string \<Rightarrow> string option \<Rightarrow> string list option \<Rightarrow> pyval \<Rightarrow> unit action" where
  "script_phase env install_path script_preamble listing pip_dependencies =
     open_and_write env Control (path_join install_path (update_file (os_name env)))
       (script_text (os_name env) script_preamble listing pip_dependencies)"

definition write_bundle :: "env \<Rightarrow> string \<Rightarrow> bool \<Rightarrow> bool \<Rightarrow> string option
    \<Rightarrow> entry list option \<Rightarrow> pyval \<Rightarrow> unit action" where
  "write_bundle env install_path compress exist_ok script_preamble conda_dependencies pip_dependencies =
     and_then (makedirs env install_path exist_ok) (\<lambda>_.
     and_then (conda_phase env install_path exist_ok conda_dependencies) (\<lambda>listing.
     and_then (pip_phase env install_path exist_ok pip_dependencies) (\<lambda>_.
     and_then (script_phase env install_path script_preamble listing pip_dependencies) (\<lambda>_.
     if compress then make_archive env install_path install_path else returning ()))))"

text \<open>Line 101.\<close>

definition install_path :: "env \<Rightarrow> string \<Rightarrow> string \<Rightarrow> string" where
  "install_path env package_location install_package_name =
     path_join (abspath env package_location) install_package_name"

definition generate_offline_install_package ::
    "env \<Rightarrow> packages_arg \<Rightarrow> string \<Rightarrow> string \<Rightarrow> bool \<Rightarrow> bool \<Rightarrow> string option \<Rightarrow> unit action" where
  "generate_offline_install_package env packages package_location install_package_name
       compress exist_ok script_preamble =
     and_then (from_result (normalize_input env packages)) (\<lambda>deps.
       write_bundle env (install_path env package_location install_package_name)
         compress exist_ok script_preamble (fst deps) (snd deps))"

subsection \<open>Concrete collaborators for the scenarios\<close>

text \<open>
  A build host where everything succeeds: a POSIX system with an active environment, a
  solver that resolves any non-empty request to one package, a descriptor \<^verbatim>\<open>environment.yaml\<close> with the dependencies
  \<^verbatim>\<open>["numpy", {pip: ["flask"]}]\<close>, and an empty disk.
\<close>

definition numpy_pkg :: pkg where
  "numpy_pkg = \<lparr>url = ''https://x/numpy-1.0.tar.bz2'', fn = ''numpy-1.0.tar.bz2''\<rparr>"

definition sample_env :: env where
  "sample_env = \<lparr>
     read_descriptor = (\<lambda>p. if p = ''environment.yaml''
        then Inr [Spec ''numpy'', Mapping [(''pip'', PyList [''flask''])]] else Inl DescriptorError),
     match_spec = (\<lambda>e. case e of Spec s \<Rightarrow> Inr s | Mapping d \<Rightarrow> Inl InvalidMatchSpec),
     conda_info = Inr \<lparr>active_prefix = JStr ''/opt/conda/envs/dev'', conda_prefix = JStr ''/opt/conda'',
                       channels = [''defaults'']\<rparr>,
     solve_for_diff = (\<lambda>prefix chans specs. Inr ([], if specs = [] then [] else [numpy_pkg])),
     http_get = (\<lambda>u. Inr ''tarball''),
     worker_order = [],
     run_pip = (\<lambda>argv. 0),
     writable = (\<lambda>p. True),
     abspath = (\<lambda>p. ''/work''),
     os_name = ''posix'',
     sys_executable = ''python'' \<rparr>"

definition empty_disk :: state where
  "empty_disk = \<lparr>fs = Map.empty, trace = []\<rparr>"

text \<open>A host whose solver resolves every request to three packages.\<close>

definition three_pkgs :: "pkg list" where
  "three_pkgs =
     [\<lparr>url = ''https://x/a.tar.bz2'', fn = ''a.tar.bz2''\<rparr>,
      \<lparr>url = ''https://x/b.tar.bz2'', fn = ''b.tar.bz2''\<rparr>,
      \<lparr>url = ''https://x/c.tar.bz2'', fn = ''c.tar.bz2''\<rparr>]"

definition three_env :: env where
  "three_env = sample_env\<lparr>solve_for_diff := (\<lambda>prefix chans specs. Inr ([], three_pkgs))\<rparr>"

text \<open>
  Scenario D: on that host the download of the second package fails; the workers finish
  in the order the list \<open>[2, 0, 1]\<close> picks.
\<close>

definition flaky_env :: env where
  "flaky_env = three_env\<lparr>
     http_get := (\<lambda>u. if u = ''https://x/b.tar.bz2'' then Inl ConnectionError else Inr (''body of '' @ u)),
     worker_order := [2, 0, 1]\<rparr>"

text \<open>A host whose pip subprocess exits with status 1.\<close>

definition pip_fails_env :: env where
  "pip_fails_env = sample_env\<lparr>run_pip := (\<lambda>argv. 1)\<rparr>"

text \<open>A host on which no environment is active: \<^verbatim>\<open>conda info --json\<close> prints \<^verbatim>\<open>"active_prefix": null\<close>.\<close>

definition base_only_env :: env where
  "base_only_env = sample_env\<lparr>conda_info :=
     Inr \<lparr>active_prefix = JNull, conda_prefix = JStr ''/opt/conda'', channels = [''defaults'']\<rparr>\<rparr>"

subsection \<open>Vocabulary of the properties\<close>

text \<open>An element of the descriptor's list that is a mapping with a \<^verbatim>\<open>pip\<close> key.\<close>

fun has_pip_key :: "entry \<Rightarrow> bool" where
  "has_pip_key (Spec s) = False"
| "has_pip_key (Mapping d) = (map_of d ''pip'' \<noteq> None)"

text \<open>
  A record as conda's solver returns it: the URL of a package is the URL of the channel's
  platform directory followed by a slash and the file name, so the file name is what
  follows the last slash of the URL.
\<close>

definition url_file_name :: "string \<Rightarrow> string" where
  "url_file_name u = rev (takeWhile (\<lambda>c. c \<noteq> CHR ''/'') (rev u))"

definition solver_record :: "pkg \<Rightarrow> bool" where
  "solver_record p = (fn p = url_file_name (url p))"

text \<open>The events that change what the disk holds at a path.\<close>

fun touches :: "string \<Rightarrow> event \<Rightarrow> bool" where
  "touches p (MadeDir q) = (q = p)"
| "touches p (FileWritten w q c) = (q = p)"
| "touches p (Archived q) = (q = p)"
| "touches p _ = False"

text \<open>
  A step from \<open>s\<close> to \<open>s'\<close> that appends \<open>evs\<close> to the trace, changes the disk only at
  paths its events touch, and creates directories only with a \<open>MadeDir\<close> event.
\<close>

definition logged :: "state \<Rightarrow> state \<Rightarrow> event list \<Rightarrow> bool" where
  "logged s s' evs =
     (trace s' = trace s @ evs
      \<and> (\<forall>p. fs s' p \<noteq> fs s p \<longrightarrow> (\<exists>ev \<in> set evs. touches p ev))
      \<and> (\<forall>p. fs s' p = Some Dir \<longrightarrow> fs s p = Some Dir \<or> MadeDir p \<in> set evs))"

text \<open>
  The steps of the conda phase for the conda directory \<open>loc\<close>: creating that directory,
  querying conda, calling the solver, dispatching and running downloads.
\<close>

fun conda_event :: "string \<Rightarrow> event \<Rightarrow> bool" where
  "conda_event loc (MadeDir q) = (q = loc)"
| "conda_event loc CondaInfoQueried = True"
| "conda_event loc (SolverInvoked prefix chans specs) = True"
| "conda_event loc (Submitted u p) = True"
| "conda_event loc (TaskDone u p) = True"
| "conda_event loc (TaskFailed u p e) = True"
| "conda_event loc (FileWritten w q c) = (w = Worker)"
| "conda_event loc _ = False"

text \<open>
  The steps of the pip phase for the pip directory \<open>loc\<close>: creating that directory, running
  the pip subprocess, writing \<^verbatim>\<open>requirements.txt\<close>.
\<close>

fun pip_event :: "string \<Rightarrow> event \<Rightarrow> bool" where
  "pip_event loc (MadeDir q) = (q = loc)"
| "pip_event loc (PipInvoked argv) = True"
| "pip_event loc (FileWritten w q c) = (w = Control \<and> q = path_join loc ''requirements.txt'')"
| "pip_event loc _ = False"

text \<open>
  A dispatched download is finished once its worker has returned or raised. In \<open>evs\<close>
  every dispatched download is joined when each \<open>Submitted\<close> has such an event.
\<close>

fun finishes :: "string \<Rightarrow> string \<Rightarrow> event \<Rightarrow> bool" where
  "finishes u p (TaskDone u' p') = (u' = u \<and> p' = p)"
| "finishes u p (TaskFailed u' p' e) = (u' = u \<and> p' = p)"
| "finishes u p _ = False"

fun joined_in :: "event list \<Rightarrow> event \<Rightarrow> bool" where
  "joined_in evs (Submitted u p) = list_ex (finishes u p) evs"
| "joined_in evs _ = True"

definition all_joined :: "event list \<Rightarrow> bool" where
  "all_joined evs = list_all (joined_in evs) evs"

fun worker_event :: "event \<Rightarrow> bool" where
  "worker_event (FileWritten w q c) = (w = Worker)"
| "worker_event (TaskDone u p) = True"
| "worker_event (TaskFailed u p e) = True"
| "worker_event _ = False"

text \<open>
  What \<^verbatim>\<open>solve_for_packages\<close> returns as the packages to add, and the listing line 109
  records from it.
\<close>

definition resolved :: "env \<Rightarrow> entry list \<Rightarrow> error + pkg list" where
  "resolved env deps =
     (case match_specs env deps of
        Inl e \<Rightarrow> Inl e
      | Inr specs \<Rightarrow>
          (case conda_info env of
             Inl e \<Rightarrow> Inl e
           | Inr i \<Rightarrow>
               (case solve_for_diff env (choose_prefix i) (channels i) specs of
                  Inl e \<Rightarrow> Inl e
                | Inr diff \<Rightarrow> Inr (snd diff))))"

definition recorded_listing :: "env \<Rightarrow> entry list option \<Rightarrow> string list option" where
  "recorded_listing env conda =
     (case conda of
        None \<Rightarrow> None
      | Some deps \<Rightarrow>
          (case resolved env deps of
             Inl e \<Rightarrow> None
           | Inr pkgs \<Rightarrow> Some (conda_package_listing (packages_to_fetch pkgs))))"

text \<open>
  The shape of the events of one run up to the script: those of the top-level
  \<^verbatim>\<open>makedirs\<close> (\<open>e1\<close>), of the conda phase (\<open>e2\<close>) and of the pip phase (\<open>e3\<close>).
\<close>

definition segments :: "env \<Rightarrow> string \<Rightarrow> entry list option \<Rightarrow> pyval
    \<Rightarrow> event list \<Rightarrow> event list \<Rightarrow> event list \<Rightarrow> bool" where
  "segments env ip conda pip e1 e2 e3 =
     (set e1 \<subseteq> {MadeDir ip}
      \<and> list_all (conda_event (path_join ip ''conda'')) e2 \<and> all_joined e2
      \<and> (conda = None \<longrightarrow> e2 = [])
      \<and> list_all (pip_event (path_join ip ''pip'')) e3
      \<and> (\<not> truthy pip \<longrightarrow> e3 = [])
      \<and> (\<forall>a. PipInvoked a \<in> set e3 \<longrightarrow> a = pip_argv env (path_join ip ''pip'') (items pip)))"

text \<open>The three optional parts of the script, as written by lines 132-140.\<close>

definition preamble_block :: "string option \<Rightarrow> string" where
  "preamble_block script_preamble = (case script_preamble of None \<Rightarrow> [] | Some pre \<Rightarrow> pre @ NL)"

definition conda_section :: "string \<Rightarrow> string list \<Rightarrow> string" where
  "conda_section osn listing =
     comment_mark osn @ '' install conda packages'' @ NL
     @ command_prepend osn @ ''conda install '' @ str_join '' '' listing @ '' --offline'' @ NL"

definition pip_section :: "string \<Rightarrow> string" where
  "pip_section osn =
     comment_mark osn @ '' install pip packages'' @ NL
     @ command_prepend osn
     @ ''pip install --no-index --find-links=pip/downloaded -r pip/requirements.txt'' @ NL"

text \<open>
  The shell script as the interface description has it, line by line: the shebang, the
  preamble when supplied, the conda comment and command when conda packages were
  resolved, the pip comment and command when pip dependencies are present. In the conda
  command every path is preceded by one blank; for an empty listing the command has two
  blanks between \<^verbatim>\<open>install\<close> and \<^verbatim>\<open>--offline\<close>.
\<close>

definition conda_install_line :: "string list \<Rightarrow> string" where
  "conda_install_line paths =
     (if paths = [] then ''conda install  --offline''
      else ''conda install'' @ concat (map (\<lambda>p. CHR '' '' # p) paths) @ '' --offline'')"

definition shell_script_lines :: "string option \<Rightarrow> string list option \<Rightarrow> bool \<Rightarrow> string list" where
  "shell_script_lines script_preamble listing pip_present =
     [''#!/bin/bash'']
     @ (case script_preamble of None \<Rightarrow> [] | Some pre \<Rightarrow> [pre])
     @ (case listing of
          None \<Rightarrow> []
        | Some paths \<Rightarrow> [''# install conda packages'', conda_install_line paths])
     @ (if pip_present
        then [''# install pip packages'',
              ''pip install --no-index --find-links=pip/downloaded -r pip/requirements.txt'']
        else [])"

definition unlines :: "string list \<Rightarrow> string" where
  "unlines ls = concat (map (\<lambda>l. l @ NL) ls)"





section \<open>Properties\<close>

lemmas run_defs = generate_offline_install_package_def install_path_def write_bundle_def and_then_def returning_def
  raising_def from_result_def emit_def makedirs_def open_and_write_def check_call_def make_archive_def
  download_and_save_package_def run_task_def fetch_packages_def solve_for_packages_def
  choose_prefix_def extract_pip_def normalize_input_def packages_to_fetch_def conda_package_listing_def
  conda_phase_def pip_phase_def pip_argv_def script_phase_def script_text_def update_file_def
  comment_mark_def file_mark_def command_prepend_def path_join_def dirname_def dir_part_def dict_get_def dict_eq_def

lemmas sample_defs = sample_env_def flaky_env_def pip_fails_env_def empty_disk_def three_pkgs_def
  numpy_pkg_def base_only_env_def three_env_def

subsection \<open>The input normalizer\<close>

lemma scan_reversed_append:
  "scan_reversed (as @ bs) = (case scan_reversed as of None \<Rightarrow> scan_reversed bs | Some r \<Rightarrow> Some r)"
  by (induction as) (auto split: entry.splits)

lemma scan_reversed_none:
  "\<forall>ip \<in> set zs. \<not> has_pip_key (snd ip) \<Longrightarrow> scan_reversed zs = None"
  by (induction zs) (auto simp: dict_get_def split: entry.splits option.splits)

lemma snd_enumerate: "snd ` set (enumerate n es) = set es"
  by (induction es arbitrary: n) auto

lemma scan_reversed_enumerate_none:
  assumes "\<forall>e \<in> set es. \<not> has_pip_key e"
  shows "scan_reversed (rev (enumerate n es)) = None"
proof (rule scan_reversed_none)
  show "\<forall>ip \<in> set (rev (enumerate n es)). \<not> has_pip_key (snd ip)"
    using assms snd_enumerate [of n es] by force
qed

lemma dict_eq_refl: "dict_eq d d"
  by (simp add: dict_eq_def list_all_iff)

lemma entry_eq_refl: "entry_eq e e"
  by (cases e) (simp_all add: dict_eq_refl)

lemma list_remove_first:
  "\<forall>e \<in> set xs. \<not> entry_eq e p \<Longrightarrow> list_remove p (xs @ p # ys) = Inr (xs @ ys)"
  by (induction xs) (auto simp: entry_eq_refl)

lemma extract_pip_single:
  assumes pip: "map_of d ''pip'' = Some (PyList l)"
      and others: "\<forall>e \<in> set (xs @ ys). \<not> has_pip_key e"
      and earlier: "\<forall>e \<in> set xs. \<not> entry_eq e (Mapping (AList.delete ''pip'' d))"
  shows "extract_pip (xs @ Mapping d # ys) = Inr (xs @ ys, PyList l)"
proof -
  have split: "rev (enumerate 0 (xs @ Mapping d # ys))
      = rev (enumerate (Suc (length xs)) ys) @ (length xs, Mapping d) # rev (enumerate 0 xs)"
    by (simp add: enumerate_append_eq)
  have tail: "scan_reversed (rev (enumerate (Suc (length xs)) ys)) = None"
    using others by (intro scan_reversed_enumerate_none) simp
  have found: "scan_reversed (rev (enumerate 0 (xs @ Mapping d # ys))) = Some (length xs, d)"
    unfolding split by (simp add: scan_reversed_append tail dict_get_def pip)
  have upd: "(xs @ Mapping d # ys)[length xs := Mapping (AList.delete ''pip'' d)]
      = xs @ Mapping (AList.delete ''pip'' d) # ys"
    by simp
  show ?thesis
    unfolding extract_pip_def found
    by (simp add: upd list_remove_first [OF earlier] dict_get_def pip del: list_update_length)
qed

text \<open>
  C4. A descriptor's \<^verbatim>\<open>dependencies\<close> list holds bare specifier strings and one mapping with
  a \<^verbatim>\<open>pip\<close> key whose value is a list, at any position: the strings \<open>xs\<close> before it, the
  strings \<open>ys\<close> after it. The normalizer gives that list as the pip dependencies and the
  other elements, in their original order, as the conda dependencies.
\<close>

theorem normalizer_extracts_the_pip_mapping:
  assumes "read_descriptor env path = Inr (map Spec xs @ Mapping d # map Spec ys)"
      and "map_of d ''pip'' = Some (PyList l)"
  shows "normalize_input env (DescriptorPath path) = Inr (Some (map Spec xs @ map Spec ys), PyList l)"
proof -
  have others: "\<forall>e \<in> set (map Spec xs @ map Spec ys). \<not> has_pip_key e" by auto
  have earlier: "\<forall>e \<in> set (map Spec xs). \<not> entry_eq e (Mapping (AList.delete ''pip'' d))" by auto
  from assms(1) extract_pip_single [OF assms(2) others earlier]
  show ?thesis by (simp add: normalize_input_def)
qed

text \<open>Scenario B: \<^verbatim>\<open>["numpy", {pip: ["flask"]}]\<close> gives conda \<^verbatim>\<open>["numpy"]\<close> and pip \<^verbatim>\<open>["flask"]\<close>.\<close>

theorem normalizer_extracts_the_pip_mapping_witness:
  "read_descriptor sample_env ''environment.yaml''
     = Inr (map Spec [''numpy''] @ Mapping [(''pip'', PyList [''flask''])] # map Spec [])
   \<and> map_of [(''pip'', PyList [''flask''])] ''pip'' = Some (PyList [''flask''])
   \<and> normalize_input sample_env (DescriptorPath ''environment.yaml'')
       = Inr (Some [Spec ''numpy''], PyList [''flask''])"
proof -
  have rd: "read_descriptor sample_env ''environment.yaml''
     = Inr (map Spec [''numpy''] @ Mapping [(''pip'', PyList [''flask''])] # map Spec [])"
    by (simp add: sample_env_def)
  have pip: "map_of [(''pip'', PyList [''flask''])] ''pip'' = Some (PyList [''flask''])" by simp
  from normalizer_extracts_the_pip_mapping [OF rd pip] rd pip
  show ?thesis by simp
qed

subsection \<open>The resolver adapter\<close>

text \<open>
  C5. The claim: with a null active prefix in the info output, \<^verbatim>\<open>solve_for_packages\<close> passes
  \<^verbatim>\<open>conda_prefix\<close> to the solver. The code compares the active prefix with the string
  \<^verbatim>\<open>'null'\<close>; \<^verbatim>\<open>json.loads\<close> turns JSON null into \<^verbatim>\<open>None\<close>, which is not that string, so
  the solver is called with \<^verbatim>\<open>None\<close> as its prefix.
\<close>

theorem null_active_prefix_reaches_solver:
  "choose_prefix \<lparr>active_prefix = JNull, conda_prefix = JStr ''/opt/conda'', channels = [''defaults'']\<rparr>
     = JNull
   \<and> trace (snd (solve_for_packages base_only_env [Spec ''numpy''] empty_disk))
       = [CondaInfoQueried, SolverInvoked JNull [''defaults''] [''numpy'']]"
  by (simp add: run_defs sample_defs)

subsection \<open>The fetch mapping and the conda listing\<close>

lemma update_fresh: "k \<notin> fst ` set al \<Longrightarrow> AList.update k v al = al @ [(k, v)]"
  by (induction al) auto

lemma foldl_update_distinct:
  "distinct (map url ps) \<Longrightarrow> fst ` set d \<inter> url ` set ps = {} \<Longrightarrow>
   foldl (\<lambda>d p. AList.update (url p) (fn p) d) d ps = d @ map (\<lambda>p. (url p, fn p)) ps"
proof (induction ps arbitrary: d)
  case Nil
  then show ?case by simp
next
  case (Cons p ps)
  from Cons.prems have fresh: "url p \<notin> fst ` set d" by auto
  have "foldl (\<lambda>d p. AList.update (url p) (fn p) d) (d @ [(url p, fn p)]) ps
        = (d @ [(url p, fn p)]) @ map (\<lambda>p. (url p, fn p)) ps"
    using Cons.prems by (intro Cons.IH) auto
  then show ?case by (simp add: update_fresh [OF fresh])
qed

lemma solver_records_distinct_urls:
  assumes "list_all solver_record pkgs" and "distinct (map fn pkgs)"
  shows "distinct (map url pkgs)"
proof -
  have "map fn pkgs = map url_file_name (map url pkgs)"
    using assms(1) by (simp add: solver_record_def list_all_iff)
  with assms(2) have "distinct (map url_file_name (map url pkgs))" by simp
  then show ?thesis unfolding distinct_map [of url_file_name] by (rule conjunct1)
qed

text \<open>
  C8. For every resolved package list as the solver returns it (records of that shape,
  with file names unique within the resolution), the fetch mapping has exactly one entry
  per package, in the solver's order, from the package's URL to its file name, no URL
  occurs twice among its keys, and the conda listing holds \<^verbatim>\<open>conda/<file name>\<close> for each
  package, in the same order.
\<close>

theorem fetch_mapping_one_entry_per_package:
  assumes "list_all solver_record pkgs" and "distinct (map fn pkgs)"
  shows "packages_to_fetch pkgs = map (\<lambda>p. (url p, fn p)) pkgs
       \<and> distinct (map fst (packages_to_fetch pkgs))
       \<and> conda_package_listing (packages_to_fetch pkgs) = map (\<lambda>p. ''conda/'' @ fn p) pkgs"
proof -
  have d: "distinct (map url pkgs)" using assms by (rule solver_records_distinct_urls)
  have m: "packages_to_fetch pkgs = map (\<lambda>p. (url p, fn p)) pkgs"
    using foldl_update_distinct [OF d, of "[]"] by (simp add: packages_to_fetch_def)
  show ?thesis using d by (simp add: m conda_package_listing_def comp_def)
qed

theorem fetch_mapping_one_entry_per_package_witness:
  "list_all solver_record three_pkgs
   \<and> distinct (map fn three_pkgs)
   \<and> packages_to_fetch three_pkgs = [(''https://x/a.tar.bz2'', ''a.tar.bz2''),
        (''https://x/b.tar.bz2'', ''b.tar.bz2''), (''https://x/c.tar.bz2'', ''c.tar.bz2'')]
   \<and> conda_package_listing (packages_to_fetch three_pkgs)
       = [''conda/a.tar.bz2'', ''conda/b.tar.bz2'', ''conda/c.tar.bz2'']"
proof -
  have shape: "list_all solver_record three_pkgs"
    by (simp add: three_pkgs_def solver_record_def url_file_name_def)
  have names: "distinct (map fn three_pkgs)" by (simp add: three_pkgs_def)
  show ?thesis
    using shape names fetch_mapping_one_entry_per_package [OF shape names]
    by (simp add: three_pkgs_def conda_package_listing_def)
qed

subsection \<open>The requirements file\<close>

text \<open>
  C2. The claim: the requirements file holds the pip specifiers in order, one per line.
  The loop calls \<^verbatim>\<open>rq.write(p)\<close> and never writes a line break: for the list
  \<^verbatim>\<open>["flask", "requests"]\<close> the file is the single line \<^verbatim>\<open>flaskrequests\<close>.
\<close>

theorem requirements_file_has_no_line_breaks:
  "fs (snd (generate_offline_install_package sample_env
        (RawMapping [(''pip'', PyList [''flask'', ''requests''])]) ''.'' ''package'' False True None
        empty_disk)) ''/work/package/pip/requirements.txt'' = Some (File ''flaskrequests'')"
  by (simp add: run_defs sample_defs)

subsection \<open>Steps of the pipeline and what they leave in the trace\<close>

lemma logged_refl: "logged s s []"
  by (simp add: logged_def)

lemma logged_trans:
  assumes "logged s s1 e1" and "logged s1 s2 e2"
  shows "logged s s2 (e1 @ e2)"
  using assms unfolding logged_def by (metis UnCI append.assoc set_append)

lemma and_then_cases:
  assumes "and_then m f s = (r, s')"
  obtains (failed) e where "m s = (Inl e, s')" and "r = Inl e"
        | (passed) x s1 where "m s = (Inr x, s1)" and "f x s1 = (r, s')"
  using assms by (auto simp: and_then_def split: prod.splits sum.splits)

lemma and_then_Inr:
  "and_then m f s = (Inr y, s') \<longleftrightarrow> (\<exists>x s1. m s = (Inr x, s1) \<and> f x s1 = (Inr y, s'))"
  by (auto simp: and_then_def split: prod.splits sum.splits)

lemma makedirs_cases:
  assumes "makedirs env n ok s = (r, s')"
  obtains (refused) e where "r = Inl e" and "s' = s"
        | (present) "r = Inr ()" and "s' = s"
        | (made) "r = Inr ()" and "logged s s' [MadeDir n]"
  using assms
  by (auto simp: makedirs_def logged_def split: option.splits node.splits if_splits)

lemma open_and_write_cases:
  assumes "open_and_write env who p c s = (r, s')"
  obtains (refused) "r = Inl OSError" and "s' = s"
        | (written) "r = Inr ()" and "logged s s' [FileWritten who p c]" and "fs s' p = Some (File c)"
  using assms
  by (auto simp: open_and_write_def logged_def split: if_splits)

lemma make_archive_cases:
  assumes "make_archive env base root s = (r, s')"
  obtains (refused) "r = Inl ArchiveError" and "s' = s"
        | (archived) "r = Inr ()" and "logged s s' [Archived (base @ ''.zip'')]"
  using assms
  by (auto simp: make_archive_def logged_def split: if_splits)

lemma emit_logged: "emit ev s = (r, s') \<Longrightarrow> r = Inr () \<and> logged s s' [ev]"
  by (auto simp: emit_def logged_def)

lemma set_insert_at: "set (take k r @ x # drop k r) = insert x (set r)"
proof -
  have "set (take k r) \<union> set (drop k r) = set r"
    by (metis append_take_drop_id set_append)
  then show ?thesis by auto
qed

lemma set_arrange: "set (arrange ns xs) = set xs"
proof (induction xs arbitrary: ns)
  case Nil
  show ?case by simp
next
  case (Cons x xs)
  show ?case unfolding arrange.simps Let_def set_insert_at by (simp add: Cons.IH)
qed

lemma worker_event_conda: "worker_event ev \<Longrightarrow> conda_event loc ev"
  by (cases ev) auto

lemma run_task_logged:
  obtains evs where "logged s (run_task env dir t s) evs" and "list_all worker_event evs"
    and "list_ex (finishes (fst t) (snd t)) evs"
proof (cases "http_get env (fst t)")
  case (Inl e)
  have "logged s (run_task env dir t s) [TaskFailed (fst t) (snd t) e]"
    by (simp add: run_task_def download_and_save_package_def and_then_def from_result_def Inl logged_def)
  then show ?thesis by (rule that) simp_all
next
  case (Inr body)
  show ?thesis
  proof (cases "(fs s (dirname (path_join dir (snd t))) = Some Dir
        \<or> fs s (dir_part (path_join dir (snd t))) = Some Dir)
      \<and> fs s (path_join dir (snd t)) \<noteq> Some Dir \<and> writable env (path_join dir (snd t))")
    case True
    have "logged s (run_task env dir t s)
            [FileWritten Worker (path_join dir (snd t)) body, TaskDone (fst t) (snd t)]"
      using True
      by (auto simp: run_task_def download_and_save_package_def and_then_def from_result_def Inr
          open_and_write_def logged_def)
    then show ?thesis by (rule that) simp_all
  next
    case False
    have "logged s (run_task env dir t s) [TaskFailed (fst t) (snd t) OSError]"
      using False
      by (auto simp: run_task_def download_and_save_package_def and_then_def from_result_def Inr
          open_and_write_def logged_def)
    then show ?thesis by (rule that) simp_all
  qed
qed

lemma pool_logged:
  "\<exists>evs. logged s (fold (run_task env dir) ts s) evs \<and> list_all worker_event evs
       \<and> (\<forall>t \<in> set ts. list_ex (finishes (fst t) (snd t)) evs)"
proof (induction ts arbitrary: s)
  case Nil
  show ?case by (rule exI [of _ "[]"]) (simp add: logged_refl)
next
  case (Cons t ts)
  obtain e1 where e1: "logged s (run_task env dir t s) e1" "list_all worker_event e1"
      "list_ex (finishes (fst t) (snd t)) e1"
    by (rule run_task_logged)
  obtain e2 where e2: "logged (run_task env dir t s) (fold (run_task env dir) ts (run_task env dir t s)) e2"
      "list_all worker_event e2" "\<forall>t \<in> set ts. list_ex (finishes (fst t) (snd t)) e2"
    using Cons.IH [of "run_task env dir t s"] by blast
  have "logged s (fold (run_task env dir) (t # ts) s) (e1 @ e2)"
    using logged_trans [OF e1(1) e2(1)] by simp
  moreover have "list_all worker_event (e1 @ e2)" using e1(2) e2(2) by simp
  moreover have "\<forall>t' \<in> set (t # ts). list_ex (finishes (fst t') (snd t')) (e1 @ e2)"
    using e1(3) e2(3) by (auto simp: list_ex_iff)
  ultimately show ?case by blast
qed

lemma all_joined_append: "all_joined a \<Longrightarrow> all_joined b \<Longrightarrow> all_joined (a @ b)"
proof -
  have mono: "joined_in a ev \<Longrightarrow> joined_in (a @ b) ev" "joined_in b ev \<Longrightarrow> joined_in (a @ b) ev" for ev
    by (cases ev; simp add: list_ex_iff; blast)+
  show "all_joined a \<Longrightarrow> all_joined b \<Longrightarrow> all_joined (a @ b)"
    using mono by (auto simp: all_joined_def list_all_iff)
qed

lemma all_joined_quiet: "\<forall>ev \<in> set evs. \<forall>u p. ev \<noteq> Submitted u p \<Longrightarrow> all_joined evs"
proof -
  assume quiet: "\<forall>ev \<in> set evs. \<forall>u p. ev \<noteq> Submitted u p"
  have "joined_in evs ev" if "ev \<in> set evs" for ev
    using quiet that by (cases ev) auto
  then show ?thesis by (simp add: all_joined_def list_all_iff)
qed

lemma fetch_packages_logged:
  assumes "fetch_packages env urls dir s = (r, s')"
  obtains evs where "r = Inr ()" and "logged s s' evs" and "list_all (conda_event loc) evs"
    and "all_joined evs"
proof -
  define s1 where "s1 = s\<lparr>trace := trace s @ map (\<lambda>(u, p). Submitted u p) urls\<rparr>"
  have r: "r = Inr ()" and s': "s' = fold (run_task env dir) (arrange (worker_order env) urls) s1"
    using assms by (simp_all add: fetch_packages_def Let_def s1_def)
  have l1: "logged s s1 (map (\<lambda>(u, p). Submitted u p) urls)"
    by (simp add: logged_def s1_def)
  obtain e2 where e2: "logged s1 s' e2" "list_all worker_event e2"
      "\<forall>t \<in> set (arrange (worker_order env) urls). list_ex (finishes (fst t) (snd t)) e2"
    unfolding s' using pool_logged [of s1 env dir "arrange (worker_order env) urls"] by blast
  let ?evs = "map (\<lambda>(u, p). Submitted u p) urls @ e2"
  have "logged s s' ?evs" by (rule logged_trans [OF l1 e2(1)])
  moreover have "list_all (conda_event loc) ?evs"
    using e2(2) by (auto simp: list_all_iff worker_event_conda)
  moreover have "all_joined ?evs"
  proof -
    have "joined_in ?evs ev" if "ev \<in> set ?evs" for ev
    proof (cases ev)
      case (Submitted u p)
      with that e2(2) have "(u, p) \<in> set urls" by (auto simp: list_all_iff)
      then have "list_ex (finishes u p) e2" using e2(3) by (auto simp: set_arrange)
      then show ?thesis by (simp add: Submitted list_ex_iff) blast
    qed simp_all
    then show ?thesis by (simp add: all_joined_def list_all_iff)
  qed
  ultimately show ?thesis using r that by blast
qed

lemma makedirs_passed:
  assumes "makedirs env n ok s = (Inr x, s1)"
  shows "\<exists>evs. logged s s1 evs \<and> set evs \<subseteq> {MadeDir n}"
  using assms
proof (cases rule: makedirs_cases)
  case present
  then show ?thesis by (intro exI [of _ "[]"]) (simp add: logged_refl)
next
  case made
  then show ?thesis by (intro exI [of _ "[MadeDir n]"]) simp
qed simp

lemma makedirs_failed:
  assumes "makedirs env n ok s = (Inl e, s')"
  shows "s' = s"
  using assms by (cases rule: makedirs_cases) simp_all

lemma solve_for_packages_logged:
  assumes "solve_for_packages env deps s = (r, s')"
  obtains evs where "logged s s' evs" and "list_all (conda_event loc) evs"
    and "\<forall>ev \<in> set evs. \<forall>u p. ev \<noteq> Submitted u p"
    and "\<forall>d. r = Inr d \<longrightarrow> resolved env deps = Inr (snd d)"
proof (cases "match_specs env deps")
  case (Inl e)
  with assms have "s' = s" "r = Inl e"
    by (simp_all add: solve_for_packages_def and_then_def from_result_def)
  then show ?thesis using that [of "[]"] by (simp add: logged_refl)
next
  case specs: (Inr specs)
  show ?thesis
  proof (cases "conda_info env")
    case (Inl e)
    with assms specs have "logged s s' [CondaInfoQueried]" "r = Inl e"
      by (auto simp: solve_for_packages_def and_then_def from_result_def emit_def logged_def)
    then show ?thesis using that [of "[CondaInfoQueried]"] by simp
  next
    case (Inr i)
    let ?evs = "[CondaInfoQueried, SolverInvoked (choose_prefix i) (channels i) specs]"
    from assms specs Inr have "logged s s' ?evs"
      and "r = solve_for_diff env (choose_prefix i) (channels i) specs"
      by (auto simp: solve_for_packages_def and_then_def from_result_def emit_def logged_def)
    then show ?thesis using that [of ?evs] specs Inr by (auto simp: resolved_def)
  qed
qed

lemma conda_phase_logged:
  assumes "conda_phase env ip ok conda s = (r, s')"
  obtains evs where "logged s s' evs" and "list_all (conda_event (path_join ip ''conda'')) evs"
    and "all_joined evs" and "conda = None \<longrightarrow> evs = []"
    and "\<forall>l. r = Inr l \<longrightarrow> l = recorded_listing env conda"
proof (cases conda)
  case None
  with assms have "s' = s" "r = Inr None" by (simp_all add: conda_phase_def returning_def)
  then show ?thesis
    using that [of "[]"] None by (simp add: logged_refl all_joined_def recorded_listing_def)
next
  case (Some deps)
  let ?loc = "path_join ip ''conda''"
  from assms Some have run: "and_then (makedirs env ?loc ok) (\<lambda>_.
          and_then (solve_for_packages env deps) (\<lambda>diff.
          and_then (fetch_packages env (packages_to_fetch (snd diff)) ?loc) (\<lambda>_.
          returning (Some (conda_package_listing (packages_to_fetch (snd diff))))))) s = (r, s')"
    by (simp add: conda_phase_def)
  have quiet: "all_joined evs" if "\<forall>ev \<in> set evs. \<forall>u p. ev \<noteq> Submitted u p" for evs
    using that by (rule all_joined_quiet)
  from run show ?thesis
  proof (cases rule: and_then_cases)
    case (failed e)
    then have "s' = s" by (simp add: makedirs_failed)
    then show ?thesis using that [of "[]"] failed Some by (simp add: logged_refl all_joined_def)
  next
    case (passed x s1)
    obtain e1 where e1: "logged s s1 e1" "set e1 \<subseteq> {MadeDir ?loc}"
      using makedirs_passed [OF passed(1)] by blast
    have j1: "all_joined e1" using e1(2) by (intro quiet) auto
    have c1: "list_all (conda_event ?loc) e1" using e1(2) by (auto simp: list_all_iff)
    from passed(2) show ?thesis
    proof (cases rule: and_then_cases)
      case (failed e)
      obtain e2 where e2: "logged s1 s' e2" "list_all (conda_event ?loc) e2"
          "\<forall>ev \<in> set e2. \<forall>u p. ev \<noteq> Submitted u p"
        using failed(1) by (rule solve_for_packages_logged [where loc = "?loc"])
      have "logged s s' (e1 @ e2)" by (rule logged_trans [OF e1(1) e2(1)])
      moreover have "list_all (conda_event ?loc) (e1 @ e2)" using c1 e2(2) by simp
      moreover have "all_joined (e1 @ e2)" using j1 quiet [OF e2(3)] by (rule all_joined_append)
      ultimately show ?thesis using that [of "e1 @ e2"] failed(2) Some by simp
    next
      case (passed diff s2)
      obtain e2 where e2: "logged s1 s2 e2" "list_all (conda_event ?loc) e2"
          "\<forall>ev \<in> set e2. \<forall>u p. ev \<noteq> Submitted u p"
          and res: "resolved env deps = Inr (snd diff)"
        using passed(1) by (rule solve_for_packages_logged [where loc = "?loc"]) auto
      from passed(2) obtain s3 where fetch: "fetch_packages env (packages_to_fetch (snd diff)) ?loc s2 = (Inr (), s3)"
        and fin: "r = Inr (Some (conda_package_listing (packages_to_fetch (snd diff))))" "s' = s3"
        by (auto simp: and_then_def returning_def fetch_packages_def Let_def)
      obtain e3 where e3: "logged s2 s3 e3" "list_all (conda_event ?loc) e3" "all_joined e3"
        using fetch by (rule fetch_packages_logged [where loc = "?loc"])
      have "logged s s' (e1 @ e2 @ e3)"
        using logged_trans [OF e1(1) logged_trans [OF e2(1) e3(1)]] fin(2) by simp
      moreover have "list_all (conda_event ?loc) (e1 @ e2 @ e3)" using c1 e2(2) e3(2) by simp
      moreover have "all_joined (e1 @ e2 @ e3)"
        using j1 quiet [OF e2(3)] e3(3) by (intro all_joined_append)
      ultimately show ?thesis
        using that [of "e1 @ e2 @ e3"] fin(1) Some res by (simp add: recorded_listing_def)
    qed
  qed
qed

lemma path_distinct:
  "path_join a ''conda'' \<noteq> a"
  "path_join a ''pip'' \<noteq> a"
  "path_join a ''conda'' \<noteq> path_join a ''pip''"
  "path_join (path_join a ''pip'') ''requirements.txt'' \<noteq> a"
  "path_join (path_join a ''pip'') ''requirements.txt'' \<noteq> path_join a ''conda''"
  "path_join (path_join a ''pip'') ''requirements.txt'' \<noteq> path_join a ''pip''"
  "path_join a (update_file osn) \<noteq> a"
  "path_join a (update_file osn) \<noteq> path_join a ''conda''"
  "path_join a (update_file osn) \<noteq> path_join a ''pip''"
  "path_join a (update_file osn) \<noteq> path_join (path_join a ''pip'') ''requirements.txt''"
  "a @ ''.zip'' \<noteq> path_join a ''conda''"
  "a @ ''.zip'' \<noteq> path_join a ''pip''"
  "a @ ''.zip'' \<noteq> path_join (path_join a ''pip'') ''requirements.txt''"
  "a @ ''.zip'' \<noteq> path_join a (update_file osn)"
  by (simp_all add: path_join_def update_file_def)

text \<open>
  A file with a plain name inside a directory that exists can be opened: the directory is
  found under one of the two names \<^verbatim>\<open>open\<close> looks it up with. This is the case of every
  write of the control thread, each of which follows the \<^verbatim>\<open>makedirs\<close> of its directory.
\<close>

lemma holding_directory:
  assumes "b \<noteq> []" and "CHR ''/'' \<notin> set b"
  shows "dirname (path_join a b) = a \<or> dir_part (path_join a b) = a"
proof -
  from assms have hd: "hd b \<noteq> CHR ''/''" by (cases b) auto
  from assms(2) have all: "\<forall>c \<in> set b. c \<noteq> CHR ''/''" by auto
  show ?thesis
  proof (cases "a = [] \<or> last a = CHR ''/''")
    case True
    then have "path_join a b = a @ b" using hd by (simp add: path_join_def)
    moreover have "dir_part (a @ b) = a"
      using True all by (cases a rule: rev_cases) (auto simp: dir_part_def dropWhile_append)
    ultimately show ?thesis by simp
  next
    case False
    then have "path_join a b = a @ ''/'' @ b" using hd by (simp add: path_join_def)
    moreover have "dirname (a @ ''/'' @ b) = a"
      using False all by (cases a rule: rev_cases) (auto simp: dirname_def dir_part_def dropWhile_append)
    ultimately show ?thesis by simp
  qed
qed

lemma open_in_directory:
  assumes "fs s a = Some Dir" and "b \<noteq> []" and "CHR ''/'' \<notin> set b"
      and "fs s (path_join a b) \<noteq> Some Dir" and "writable env (path_join a b)"
  shows "fst (open_and_write env who (path_join a b) c s) = Inr ()"
  using assms(1,4,5) holding_directory [OF assms(2,3), of a]
  by (auto simp: open_and_write_def)

lemma check_call_logged:
  assumes "check_call env argv s = (r, s')"
  shows "logged s s' [PipInvoked argv]"
    and "r = (if run_pip env argv = 0 then Inr () else Inl (CalledProcessError (run_pip env argv)))"
  using assms
  by (auto simp: check_call_def and_then_def emit_def returning_def raising_def logged_def
      split: if_splits)

lemma pip_phase_logged:
  assumes "pip_phase env ip ok pip s = (r, s')"
  obtains evs where "logged s s' evs"
    and "list_all (pip_event (path_join ip ''pip'')) evs"
    and "\<not> truthy pip \<longrightarrow> evs = [] \<and> r = Inr ()"
    and "\<forall>a. PipInvoked a \<in> set evs \<longrightarrow> a = pip_argv env (path_join ip ''pip'') (items pip)"
    and "r = Inr () \<and> truthy pip \<longrightarrow>
           PipInvoked (pip_argv env (path_join ip ''pip'') (items pip)) \<in> set evs
           \<and> run_pip env (pip_argv env (path_join ip ''pip'') (items pip)) = 0
           \<and> fs s' (path_join (path_join ip ''pip'') ''requirements.txt'')
               = Some (File (concat (items pip)))"
    and "truthy pip \<and> run_pip env (pip_argv env (path_join ip ''pip'') (items pip)) \<noteq> 0 \<longrightarrow>
           (\<forall>w p c. FileWritten w p c \<notin> set evs) \<and> (\<exists>e. r = Inl e)
           \<and> (PipInvoked (pip_argv env (path_join ip ''pip'') (items pip)) \<in> set evs
                \<longrightarrow> last evs = PipInvoked (pip_argv env (path_join ip ''pip'') (items pip))
                  \<and> r = Inl (CalledProcessError (run_pip env (pip_argv env (path_join ip ''pip'') (items pip)))))"
proof (cases "truthy pip")
  case False
  with assms have "s' = s" "r = Inr ()" by (simp_all add: pip_phase_def returning_def)
  then show ?thesis using that [of "[]"] False by (simp add: logged_refl)
next
  case True
  let ?loc = "path_join ip ''pip''"
  let ?argv = "pip_argv env ?loc (items pip)"
  let ?rq = "path_join ?loc ''requirements.txt''"
  from assms True have run: "and_then (makedirs env ?loc ok) (\<lambda>_.
        and_then (check_call env ?argv) (\<lambda>_.
        open_and_write env Control ?rq (concat (items pip)))) s = (r, s')"
    by (simp add: pip_phase_def)
  from run show ?thesis
  proof (cases rule: and_then_cases)
    case (failed e)
    then have "s' = s" by (simp add: makedirs_failed)
    then show ?thesis using that [of "[]"] failed True by (simp add: logged_refl)
  next
    case (passed x s1)
    obtain e1 where e1: "logged s s1 e1" "set e1 \<subseteq> {MadeDir ?loc}"
      using makedirs_passed [OF passed(1)] by blast
    have p1: "list_all (pip_event ?loc) e1" using e1(2) by (auto simp: list_all_iff)
    have q1: "\<forall>a. PipInvoked a \<notin> set e1" "\<forall>w p c. FileWritten w p c \<notin> set e1"
      using e1(2) by auto
    from passed(2) show ?thesis
    proof (cases rule: and_then_cases)
      case (failed e)
      note cc = check_call_logged [OF failed(1)]
      have lg: "logged s s' (e1 @ [PipInvoked ?argv])" by (rule logged_trans [OF e1(1) cc(1)])
      have nz: "run_pip env ?argv \<noteq> 0" and r: "r = Inl (CalledProcessError (run_pip env ?argv))"
        using cc(2) failed(2) by (auto split: if_splits)
      show ?thesis
        using that [of "e1 @ [PipInvoked ?argv]"] lg p1 nz r q1 True by auto
    next
      case (passed y s2)
      note cc = check_call_logged [OF passed(1)]
      have z: "run_pip env ?argv = 0" using cc(2) by (auto split: if_splits)
      from passed(2) show ?thesis
      proof (cases rule: open_and_write_cases)
        case refused
        have lg: "logged s s' (e1 @ [PipInvoked ?argv])"
          using logged_trans [OF e1(1) cc(1)] refused by simp
        show ?thesis
          using that [of "e1 @ [PipInvoked ?argv]"] lg p1 z refused(1) q1 True by auto
      next
        case written
        let ?evs = "e1 @ [PipInvoked ?argv, FileWritten Control ?rq (concat (items pip))]"
        have lg: "logged s s' ?evs"
          using logged_trans [OF e1(1) logged_trans [OF cc(1) written(2)]] by simp
        show ?thesis
          using that [of ?evs] lg p1 z written(1,3) q1 True by auto
      qed
    qed
  qed
qed

lemma script_phase_cases:
  assumes "script_phase env ip pre listing pip s = (r, s')"
  obtains (refused) "r = Inl OSError" and "s' = s"
        | (written) "r = Inr ()"
            and "logged s s' [FileWritten Control (path_join ip (update_file (os_name env)))
                   (script_text (os_name env) pre listing pip)]"
            and "fs s' (path_join ip (update_file (os_name env)))
                   = Some (File (script_text (os_name env) pre listing pip))"
  using assms unfolding script_phase_def by (rule open_and_write_cases)

lemma archive_step:
  assumes "(if compress then make_archive env ip ip else returning ()) s = (r, s')"
  obtains e5 where "logged s s' e5" and "e5 = [] \<or> e5 = [Archived (ip @ ''.zip'')]"
proof (cases compress)
  case False
  with assms have "s' = s" by (simp add: returning_def)
  then show ?thesis using that [of "[]"] by (simp add: logged_refl)
next
  case True
  with assms have "make_archive env ip ip s = (r, s')" by simp
  then show ?thesis
  proof (cases rule: make_archive_cases)
    case refused
    then show ?thesis using that [of "[]"] by (simp add: logged_refl)
  next
    case archived
    then show ?thesis using that [of "[Archived (ip @ ''.zip'')]"] by simp
  qed
qed

lemma logged_unchanged:
  assumes "logged s s' evs" and "\<forall>ev \<in> set evs. \<not> touches p ev"
  shows "fs s' p = fs s p"
  using assms unfolding logged_def by blast

lemma segmentsI:
  assumes "set e1 \<subseteq> {MadeDir ip}"
    and "list_all (conda_event (path_join ip ''conda'')) e2" and "all_joined e2"
    and "conda = None \<longrightarrow> e2 = []"
    and "list_all (pip_event (path_join ip ''pip'')) e3"
    and "\<not> truthy pip \<longrightarrow> e3 = []"
    and "\<forall>a. PipInvoked a \<in> set e3 \<longrightarrow> a = pip_argv env (path_join ip ''pip'') (items pip)"
  shows "segments env ip conda pip e1 e2 e3"
  unfolding segments_def using assms by (intro conjI)

lemma all_joined_Nil: "all_joined []"
  by (simp add: all_joined_def)

lemma write_bundle_run:
  assumes "write_bundle env ip compress ok pre conda pip s = (r, s')"
  obtains (aborted) e1 e2 e3 e where
      "logged s s' (e1 @ e2 @ e3)" and "segments env ip conda pip e1 e2 e3" and "r = Inl e"
      and "truthy pip \<and> run_pip env (pip_argv env (path_join ip ''pip'') (items pip)) \<noteq> 0 \<longrightarrow>
             (\<forall>w p c. FileWritten w p c \<notin> set e3)
             \<and> (PipInvoked (pip_argv env (path_join ip ''pip'') (items pip)) \<in> set e3
                  \<longrightarrow> last e3 = PipInvoked (pip_argv env (path_join ip ''pip'') (items pip))
                    \<and> r = Inl (CalledProcessError (run_pip env (pip_argv env (path_join ip ''pip'') (items pip)))))"
  | (scripted) e1 e2 e3 e5 where
      "logged s s' (e1 @ e2 @ e3 @ FileWritten Control (path_join ip (update_file (os_name env)))
           (script_text (os_name env) pre (recorded_listing env conda) pip) # e5)"
      and "segments env ip conda pip e1 e2 e3"
      and "truthy pip \<longrightarrow> PipInvoked (pip_argv env (path_join ip ''pip'') (items pip)) \<in> set e3
             \<and> run_pip env (pip_argv env (path_join ip ''pip'') (items pip)) = 0"
      and "e5 = [] \<or> e5 = [Archived (ip @ ''.zip'')]"
      and "fs s' (path_join ip (update_file (os_name env)))
             = Some (File (script_text (os_name env) pre (recorded_listing env conda) pip))"
proof -
  let ?argv = "pip_argv env (path_join ip ''pip'') (items pip)"
  let ?sc = "path_join ip (update_file (os_name env))"
  let ?text = "script_text (os_name env) pre (recorded_listing env conda) pip"
  from assms have run: "and_then (makedirs env ip ok) (\<lambda>_.
       and_then (conda_phase env ip ok conda) (\<lambda>listing.
       and_then (pip_phase env ip ok pip) (\<lambda>_.
       and_then (script_phase env ip pre listing pip) (\<lambda>_.
       if compress then make_archive env ip ip else returning ())))) s = (r, s')"
    by (simp add: write_bundle_def)
  from run show ?thesis
  proof (cases rule: and_then_cases)
    case (failed e)
    then have same: "s' = s" by (simp add: makedirs_failed)
    show ?thesis
    proof (rule aborted [of "[]" "[]" "[]" e])
      show "logged s s' ([] @ [] @ [])" using same by (simp add: logged_refl)
      show "segments env ip conda pip [] [] []" by (rule segmentsI) (simp_all add: all_joined_Nil)
      show "r = Inl e" by (rule failed(2))
    qed simp
  next
    case (passed x s1)
    obtain e1 where e1: "logged s s1 e1" "set e1 \<subseteq> {MadeDir ip}"
      using makedirs_passed [OF passed(1)] by blast
    from passed(2) show ?thesis
    proof (cases rule: and_then_cases)
      case (failed e)
      obtain e2 where e2: "logged s1 s' e2" "list_all (conda_event (path_join ip ''conda'')) e2"
          "all_joined e2" "conda = None \<longrightarrow> e2 = []"
        using failed(1) by (rule conda_phase_logged)
      show ?thesis
      proof (rule aborted [of e1 e2 "[]" e])
        show "logged s s' (e1 @ e2 @ [])" using logged_trans [OF e1(1) e2(1)] by simp
        show "segments env ip conda pip e1 e2 []"
          using e1(2) e2(2-4) by (intro segmentsI) simp_all
        show "r = Inl e" by (rule failed(2))
      qed simp
    next
      case (passed listing s2)
      obtain e2 where e2: "logged s1 s2 e2" "list_all (conda_event (path_join ip ''conda'')) e2"
          "all_joined e2" "conda = None \<longrightarrow> e2 = []" and listing: "listing = recorded_listing env conda"
        using passed(1) by (rule conda_phase_logged) auto
      have l2: "logged s s2 (e1 @ e2)" by (rule logged_trans [OF e1(1) e2(1)])
      from passed(2) show ?thesis
      proof (cases rule: and_then_cases)
        case (failed e)
        obtain e3 where e3: "logged s2 s' e3" "list_all (pip_event (path_join ip ''pip'')) e3"
            "\<not> truthy pip \<longrightarrow> e3 = [] \<and> Inl e = (Inr () :: error + unit)"
            "\<forall>a. PipInvoked a \<in> set e3 \<longrightarrow> a = ?argv"
            "truthy pip \<and> run_pip env ?argv \<noteq> 0 \<longrightarrow>
               (\<forall>w p c. FileWritten w p c \<notin> set e3) \<and> (\<exists>e'. (Inl e :: error + unit) = Inl e')
               \<and> (PipInvoked ?argv \<in> set e3 \<longrightarrow> last e3 = PipInvoked ?argv
                    \<and> (Inl e :: error + unit) = Inl (CalledProcessError (run_pip env ?argv)))"
          using failed(1) by (rule pip_phase_logged)
        from e3(3) have quiet: "\<not> truthy pip \<longrightarrow> e3 = []" by simp
        show ?thesis
        proof (rule aborted [of e1 e2 e3 e])
          show "logged s s' (e1 @ e2 @ e3)" using logged_trans [OF l2 e3(1)] by simp
          show "segments env ip conda pip e1 e2 e3"
            using e1(2) e2(2-4) e3(2) quiet e3(4) by (intro segmentsI)
          show "r = Inl e" by (rule failed(2))
          show "truthy pip \<and> run_pip env ?argv \<noteq> 0 \<longrightarrow>
             (\<forall>w p c. FileWritten w p c \<notin> set e3)
             \<and> (PipInvoked ?argv \<in> set e3 \<longrightarrow> last e3 = PipInvoked ?argv
                    \<and> r = Inl (CalledProcessError (run_pip env ?argv)))"
            using e3(5) failed(2) by simp
        qed
      next
        case (passed y s3)
        obtain e3 where e3: "logged s2 s3 e3" "list_all (pip_event (path_join ip ''pip'')) e3"
            "\<not> truthy pip \<longrightarrow> e3 = []"
            "\<forall>a. PipInvoked a \<in> set e3 \<longrightarrow> a = ?argv"
            "truthy pip \<longrightarrow> PipInvoked ?argv \<in> set e3 \<and> run_pip env ?argv = 0"
          using passed(1) by (rule pip_phase_logged) (cases y, auto)
        have l3: "logged s s3 (e1 @ e2 @ e3)" using logged_trans [OF l2 e3(1)] by simp
        have seg: "segments env ip conda pip e1 e2 e3"
          using e1(2) e2(2-4) e3(2-4) by (intro segmentsI)
        from passed(2) show ?thesis
        proof (cases rule: and_then_cases)
          case (failed e)
          then have r: "r = Inl OSError" and same: "s' = s3"
            by (cases rule: script_phase_cases; simp)+
          show ?thesis
          proof (rule aborted [of e1 e2 e3 OSError])
            show "logged s s' (e1 @ e2 @ e3)" using l3 same by simp
            show "segments env ip conda pip e1 e2 e3" by (rule seg)
            show "r = Inl OSError" by (rule r)
            show "truthy pip \<and> run_pip env ?argv \<noteq> 0 \<longrightarrow>
               (\<forall>w p c. FileWritten w p c \<notin> set e3)
               \<and> (PipInvoked ?argv \<in> set e3 \<longrightarrow> last e3 = PipInvoked ?argv
                      \<and> r = Inl (CalledProcessError (run_pip env ?argv)))"
              using e3(5) by (cases "truthy pip") auto
          qed
        next
          case (passed z s4)
          from passed(1) have l4: "logged s3 s4 [FileWritten Control ?sc (script_text (os_name env) pre listing pip)]"
            and f4: "fs s4 ?sc = Some (File (script_text (os_name env) pre listing pip))"
            by (cases rule: script_phase_cases; simp)+
          obtain e5 where e5: "logged s4 s' e5" "e5 = [] \<or> e5 = [Archived (ip @ ''.zip'')]"
            using passed(2) by (rule archive_step)
          have "\<forall>ev \<in> set e5. \<not> touches ?sc ev"
            using e5(2) path_distinct(14) [of ip "os_name env"] by auto
          then have f5: "fs s' ?sc = Some (File ?text)"
            using logged_unchanged [OF e5(1)] f4 listing by simp
          have "logged s s' ((e1 @ e2 @ e3) @ [FileWritten Control ?sc (script_text (os_name env) pre listing pip)] @ e5)"
            by (rule logged_trans [OF l3 logged_trans [OF l4 e5(1)]])
          then have lg: "logged s s' (e1 @ e2 @ e3 @ FileWritten Control ?sc ?text # e5)"
            using listing by simp
          show ?thesis
            by (rule scripted [OF lg seg e3(5) e5(2) f5])
        qed
      qed
    qed
  qed
qed

lemma segments_no_script_write:
  assumes "segments env ip conda pip e1 e2 e3"
  shows "FileWritten Control (path_join ip (update_file osn)) c \<notin> set (e1 @ e2 @ e3)"
proof
  let ?x = "FileWritten Control (path_join ip (update_file osn)) c"
  assume "?x \<in> set (e1 @ e2 @ e3)"
  then consider "?x \<in> set e1" | "?x \<in> set e2" | "?x \<in> set e3" by auto
  then show False
  proof cases
    case 1
    with assms show False by (auto simp: segments_def)
  next
    case 2
    from assms have "\<forall>ev \<in> set e2. conda_event (path_join ip ''conda'') ev"
      by (simp add: segments_def list_all_iff)
    with 2 have "conda_event (path_join ip ''conda'') ?x" by blast
    then show False by simp
  next
    case 3
    from assms have "\<forall>ev \<in> set e3. pip_event (path_join ip ''pip'') ev"
      by (simp add: segments_def list_all_iff)
    with 3 have "pip_event (path_join ip ''pip'') ?x" by blast
    then show False using path_distinct(10) [of ip osn] by simp
  qed
qed

subsection \<open>The replay script\<close>

lemma generate_is_write_bundle:
  assumes "normalize_input env packages = Inr (conda, pip)"
  shows "generate_offline_install_package env packages loc name compress ok pre s
       = write_bundle env (install_path env loc name) compress ok pre conda pip s"
  using assms by (simp add: generate_offline_install_package_def and_then_def from_result_def)

lemma script_text_sections:
  "script_text osn pre listing pip =
     file_mark osn @ preamble_block pre
     @ (case listing of None \<Rightarrow> [] | Some l \<Rightarrow> conda_section osn l)
     @ (if pip \<noteq> PyNone then pip_section osn else [])"
  by (simp add: script_text_def preamble_block_def conda_section_def pip_section_def
      split: option.splits)

lemma blank_separated:
  "l \<noteq> [] \<Longrightarrow> CHR '' '' # str_join '' '' l = concat (map (\<lambda>p. CHR '' '' # p) l)"
  by (induction "'' ''" l rule: str_join.induct) simp_all

lemma conda_command:
  "''conda install '' @ str_join '' '' l @ '' --offline'' = conda_install_line l"
proof (cases "l = []")
  case True
  then show ?thesis by (simp add: conda_install_line_def)
next
  case False
  from blank_separated [OF this] show ?thesis by (simp add: conda_install_line_def False)
qed

lemma script_text_posix:
  assumes "osn \<noteq> ''nt''"
  shows "script_text osn pre listing pip = unlines (shell_script_lines pre listing (pip \<noteq> PyNone))"
proof -
  have conda: "''conda install '' @ str_join '' '' l @ '' --offline'' @ rest = conda_install_line l @ rest"
    for l rest
    using conda_command [of l] by (metis append.assoc)
  show ?thesis
    using assms
    by (cases pre; cases listing)
       (simp_all add: script_text_def shell_script_lines_def unlines_def file_mark_def
          comment_mark_def command_prepend_def conda del: append_Cons)
qed

text \<open>
  C7. On a build host that is not Windows, whenever a run writes the script, and so in
  every run that succeeds, \<^verbatim>\<open>update.sh\<close> holds exactly these lines, in this order, each
  ended by a line break: \<^verbatim>\<open>#!/bin/bash\<close>; the preamble as supplied, when there is one; when
  conda dependencies were given, the line \<^verbatim>\<open># install conda packages\<close> and the line
  \<^verbatim>\<open>conda install conda/<f1> conda/<f2> ... --offline\<close> with the recorded paths, each preceded
  by one blank; when pip dependencies are present (not \<^verbatim>\<open>None\<close>), the line
  \<^verbatim>\<open># install pip packages\<close> and the line
  \<^verbatim>\<open>pip install --no-index --find-links=pip/downloaded -r pip/requirements.txt\<close>. A failure of
  the archive step after the script leaves the script as written.
\<close>

theorem shell_script_structure:
  assumes "os_name env \<noteq> ''nt''"
      and "normalize_input env packages = Inr (conda, pip)"
      and "generate_offline_install_package env packages loc name compress ok pre s = (r, s')"
      and "trace s' = trace s @ evs"
  shows "(r = Inr () \<longrightarrow>
            FileWritten Control (path_join (install_path env loc name) ''update.sh'')
              (unlines (shell_script_lines pre (recorded_listing env conda) (pip \<noteq> PyNone))) \<in> set evs)
       \<and> (\<forall>c. FileWritten Control (path_join (install_path env loc name) ''update.sh'') c \<in> set evs \<longrightarrow>
              c = unlines (shell_script_lines pre (recorded_listing env conda) (pip \<noteq> PyNone))
              \<and> fs s' (path_join (install_path env loc name) ''update.sh'') = Some (File c))"
proof -
  let ?ip = "install_path env loc name"
  let ?sc = "path_join ?ip ''update.sh''"
  let ?lines = "unlines (shell_script_lines pre (recorded_listing env conda) (pip \<noteq> PyNone))"
  have run: "write_bundle env ?ip compress ok pre conda pip s = (r, s')"
    using assms(3) by (simp add: generate_is_write_bundle [OF assms(2)])
  have name: "update_file (os_name env) = ''update.sh''"
    using assms(1) by (simp add: update_file_def)
  have content: "script_text (os_name env) pre (recorded_listing env conda) pip = ?lines"
    by (rule script_text_posix [OF assms(1)])
  from run show ?thesis
  proof (cases rule: write_bundle_run)
    case (aborted e1 e2 e3 e)
    from aborted(1) assms(4) have evs: "evs = e1 @ e2 @ e3" by (simp add: logged_def)
    have "FileWritten Control ?sc c \<notin> set evs" for c
      using segments_no_script_write [OF aborted(2), of "os_name env" c] by (simp add: evs name)
    with aborted(3) show ?thesis by simp
  next
    case (scripted e1 e2 e3 e5)
    from scripted(1) assms(4) have evs: "evs = (e1 @ e2 @ e3) @ FileWritten Control ?sc ?lines # e5"
      by (simp add: logged_def name content)
    have early: "FileWritten Control ?sc c \<notin> set (e1 @ e2 @ e3)" for c
      using segments_no_script_write [OF scripted(2), of "os_name env" c] by (simp add: name)
    have late: "FileWritten Control ?sc c \<notin> set e5" for c
      using scripted(4) by auto
    have only: "c = ?lines" if "FileWritten Control ?sc c \<in> set evs" for c
      using that early [of c] late [of c] unfolding evs by auto
    have disk: "fs s' ?sc = Some (File ?lines)"
      using scripted(5) by (simp add: name content)
    have "FileWritten Control ?sc ?lines \<in> set evs" unfolding evs by simp
    with only disk show ?thesis by blast
  qed
qed

text \<open>
  Three resolved packages, a preamble and pip dependencies, with the archive step, on the
  host of scenario D.
\<close>

theorem shell_script_structure_witness:
  "os_name three_env \<noteq> ''nt''
   \<and> normalize_input three_env (RawMapping [(''conda'', PyList [''a'']), (''pip'', PyList [''flask''])])
       = Inr (Some [Spec ''a''], PyList [''flask''])
   \<and> fst (generate_offline_install_package three_env
          (RawMapping [(''conda'', PyList [''a'']), (''pip'', PyList [''flask''])])
          ''.'' ''package'' True True (Some ''conda activate dev'') empty_disk) = Inr ()
   \<and> FileWritten Control ''/work/package/update.sh''
        (''#!/bin/bash'' @ NL @ ''conda activate dev'' @ NL
           @ ''# install conda packages'' @ NL
           @ ''conda install conda/a.tar.bz2 conda/b.tar.bz2 conda/c.tar.bz2 --offline'' @ NL
           @ ''# install pip packages'' @ NL
           @ ''pip install --no-index --find-links=pip/downloaded -r pip/requirements.txt'' @ NL)
       \<in> set (trace (snd (generate_offline_install_package three_env
          (RawMapping [(''conda'', PyList [''a'']), (''pip'', PyList [''flask''])])
          ''.'' ''package'' True True (Some ''conda activate dev'') empty_disk)))
   \<and> fs (snd (generate_offline_install_package three_env
          (RawMapping [(''conda'', PyList [''a'']), (''pip'', PyList [''flask''])])
          ''.'' ''package'' True True (Some ''conda activate dev'') empty_disk))
        ''/work/package/update.sh''
       = Some (File (''#!/bin/bash'' @ NL @ ''conda activate dev'' @ NL
           @ ''# install conda packages'' @ NL
           @ ''conda install conda/a.tar.bz2 conda/b.tar.bz2 conda/c.tar.bz2 --offline'' @ NL
           @ ''# install pip packages'' @ NL
           @ ''pip install --no-index --find-links=pip/downloaded -r pip/requirements.txt'' @ NL))"
proof -
  let ?pk = "RawMapping [(''conda'', PyList [''a'']), (''pip'', PyList [''flask''])]"
  let ?run = "generate_offline_install_package three_env ?pk
          ''.'' ''package'' True True (Some ''conda activate dev'') empty_disk"
  let ?script = "''#!/bin/bash'' @ NL @ ''conda activate dev'' @ NL
           @ ''# install conda packages'' @ NL
           @ ''conda install conda/a.tar.bz2 conda/b.tar.bz2 conda/c.tar.bz2 --offline'' @ NL
           @ ''# install pip packages'' @ NL
           @ ''pip install --no-index --find-links=pip/downloaded -r pip/requirements.txt'' @ NL"
  have os: "os_name three_env \<noteq> ''nt''" by (simp add: sample_defs)
  have norm: "normalize_input three_env ?pk = Inr (Some [Spec ''a''], PyList [''flask''])"
    by (simp add: normalize_input_def dict_get_def)
  have ok: "fst ?run = Inr ()" by (simp add: run_defs sample_defs)
  then have run: "?run = (Inr (), snd ?run)" by (simp add: prod_eq_iff)
  have tr: "trace (snd ?run) = trace empty_disk @ trace (snd ?run)" by (simp add: empty_disk_def)
  have listing: "recorded_listing three_env (Some [Spec ''a''])
      = Some [''conda/a.tar.bz2'', ''conda/b.tar.bz2'', ''conda/c.tar.bz2'']"
    by (simp add: recorded_listing_def resolved_def run_defs sample_defs)
  have path: "path_join (install_path three_env ''.'' ''package'') ''update.sh'' = ''/work/package/update.sh''"
    by (simp add: install_path_def path_join_def sample_defs)
  have lines: "unlines (shell_script_lines (Some ''conda activate dev'')
        (Some [''conda/a.tar.bz2'', ''conda/b.tar.bz2'', ''conda/c.tar.bz2'']) (PyList [''flask''] \<noteq> PyNone))
      = ?script"
    by (simp add: shell_script_lines_def conda_install_line_def unlines_def)
  note main = shell_script_structure [OF os norm run tr, unfolded path listing lines]
  from main have written: "FileWritten Control ''/work/package/update.sh'' ?script \<in> set (trace (snd ?run))"
    by blast
  with main have disk: "fs (snd ?run) ''/work/package/update.sh'' = Some (File ?script)"
    by blast
  show ?thesis using os norm ok written disk by (intro conjI)
qed

subsection \<open>The guards of the two artifact phases\<close>

lemma pip_event_not_conda:
  "pip_event (path_join ip ''pip'') ev \<Longrightarrow> \<not> conda_event (path_join ip ''conda'') ev"
  using path_distinct(3) [of ip] by (cases ev) auto

lemma conda_event_not_pip:
  "conda_event (path_join ip ''conda'') ev \<Longrightarrow> \<not> pip_event (path_join ip ''pip'') ev"
  using pip_event_not_conda by blast

lemma pip_event_touches:
  assumes "pip_event (path_join ip ''pip'') ev" and "touches p ev"
  shows "p = path_join ip ''pip'' \<or> p = path_join (path_join ip ''pip'') ''requirements.txt''"
  using assms by (cases ev) auto

lemma segments_absent_conda:
  assumes "segments env ip None pip e1 e2 e3"
  shows "e2 = []"
    and "\<forall>ev \<in> set (e1 @ e2 @ e3). \<not> conda_event (path_join ip ''conda'') ev"
    and "\<forall>ev \<in> set (e1 @ e2 @ e3). \<not> touches (path_join ip ''conda'') ev"
proof -
  from assms have e1: "set e1 \<subseteq> {MadeDir ip}" and e2: "e2 = []"
    and e3: "list_all (pip_event (path_join ip ''pip'')) e3"
    by (simp_all add: segments_def)
  show "e2 = []" by (rule e2)
  have pip: "pip_event (path_join ip ''pip'') ev" if "ev \<in> set e3" for ev
    using e3 that by (simp add: list_all_iff)
  show "\<forall>ev \<in> set (e1 @ e2 @ e3). \<not> conda_event (path_join ip ''conda'') ev"
    using e1 e2 pip pip_event_not_conda path_distinct(1) [of ip] by auto
  show "\<forall>ev \<in> set (e1 @ e2 @ e3). \<not> touches (path_join ip ''conda'') ev"
    using e1 e2 pip pip_event_touches [of ip _ "path_join ip ''conda''"]
      path_distinct(1,3,5) [of ip]
    by (auto simp del: pip_event.simps)
qed

text \<open>
  C3 (as amended). When the conda dependency list is absent (\<^verbatim>\<open>None\<close>), the run has no step
  of the conda phase: the \<^verbatim>\<open>conda/\<close> directory is not created and the disk is unchanged at
  its path, conda is not queried, the solver is not invoked, no download is dispatched or
  run, and the script, if it is written, consists of the file mark, the preamble and
  the pip section only.
\<close>

theorem absent_conda_skips_conda_phase:
  assumes "normalize_input env packages = Inr (None, pip)"
      and "generate_offline_install_package env packages loc name compress ok pre s = (r, s')"
  shows "\<exists>evs. trace s' = trace s @ evs
           \<and> list_all (\<lambda>ev. \<not> conda_event (path_join (install_path env loc name) ''conda'') ev) evs
           \<and> fs s' (path_join (install_path env loc name) ''conda'')
               = fs s (path_join (install_path env loc name) ''conda'')
           \<and> (\<forall>c. FileWritten Control (path_join (install_path env loc name) (update_file (os_name env))) c
                   \<in> set evs
                 \<longrightarrow> c = file_mark (os_name env) @ preamble_block pre
                         @ (if pip \<noteq> PyNone then pip_section (os_name env) else []))"
proof -
  let ?ip = "install_path env loc name"
  let ?cl = "path_join ?ip ''conda''"
  let ?sc = "path_join ?ip (update_file (os_name env))"
  have run: "write_bundle env ?ip compress ok pre None pip s = (r, s')"
    using assms(2) by (simp add: generate_is_write_bundle [OF assms(1)])
  have content: "script_text (os_name env) pre (recorded_listing env None) pip
      = file_mark (os_name env) @ preamble_block pre
        @ (if pip \<noteq> PyNone then pip_section (os_name env) else [])"
    by (simp add: script_text_sections recorded_listing_def)
  from run show ?thesis
  proof (cases rule: write_bundle_run)
    case (aborted e1 e2 e3 e)
    note seg = segments_absent_conda [OF aborted(2)]
    note nsw = segments_no_script_write [OF aborted(2), of "os_name env"]
    show ?thesis
    proof (intro exI [of _ "e1 @ e2 @ e3"] conjI)
      show "trace s' = trace s @ e1 @ e2 @ e3" using aborted(1) by (simp add: logged_def)
      show "list_all (\<lambda>ev. \<not> conda_event ?cl ev) (e1 @ e2 @ e3)"
        using seg(2) by (simp add: list_all_iff)
      show "fs s' ?cl = fs s ?cl" by (rule logged_unchanged [OF aborted(1) seg(3)])
      show "\<forall>c. FileWritten Control ?sc c \<in> set (e1 @ e2 @ e3) \<longrightarrow>
          c = file_mark (os_name env) @ preamble_block pre
                @ (if pip \<noteq> PyNone then pip_section (os_name env) else [])"
        using nsw by blast
    qed
  next
    case (scripted e1 e2 e3 e5)
    note seg = segments_absent_conda [OF scripted(2)]
    note nsw = segments_no_script_write [OF scripted(2), of "os_name env"]
    let ?x = "FileWritten Control ?sc (script_text (os_name env) pre (recorded_listing env None) pip)"
    let ?evs = "e1 @ e2 @ e3 @ ?x # e5"
    have set_evs: "set ?evs = set (e1 @ e2 @ e3) \<union> {?x} \<union> set e5" by auto
    have e5: "\<forall>ev \<in> set e5. ev = Archived (?ip @ ''.zip'')" using scripted(4) by auto
    show ?thesis
    proof (intro exI [of _ ?evs] conjI)
      show "trace s' = trace s @ ?evs" using scripted(1) by (simp add: logged_def)
      show "list_all (\<lambda>ev. \<not> conda_event ?cl ev) ?evs"
        unfolding list_all_iff set_evs using seg(2) e5 by auto
      have "\<forall>ev \<in> set ?evs. \<not> touches ?cl ev"
        unfolding set_evs using seg(3) e5 path_distinct(8,11) [of ?ip] by auto
      then show "fs s' ?cl = fs s ?cl" by (rule logged_unchanged [OF scripted(1)])
      show "\<forall>c. FileWritten Control ?sc c \<in> set ?evs \<longrightarrow>
          c = file_mark (os_name env) @ preamble_block pre
                @ (if pip \<noteq> PyNone then pip_section (os_name env) else [])"
        unfolding set_evs using nsw e5 content by auto
    qed
  qed
qed

text \<open>The mapping \<^verbatim>\<open>{pip: ["flask"]}\<close>, which has no \<^verbatim>\<open>conda\<close> key.\<close>

theorem absent_conda_skips_conda_phase_witness:
  "normalize_input sample_env (RawMapping [(''pip'', PyList [''flask''])]) = Inr (None, PyList [''flask''])
   \<and> (\<exists>evs. trace (snd (generate_offline_install_package sample_env
                 (RawMapping [(''pip'', PyList [''flask''])]) ''.'' ''package'' False True None empty_disk))
             = trace empty_disk @ evs
           \<and> list_all (\<lambda>ev. \<not> conda_event (path_join (install_path sample_env ''.'' ''package'') ''conda'') ev) evs
           \<and> fs (snd (generate_offline_install_package sample_env
                 (RawMapping [(''pip'', PyList [''flask''])]) ''.'' ''package'' False True None empty_disk))
                (path_join (install_path sample_env ''.'' ''package'') ''conda'')
               = fs empty_disk (path_join (install_path sample_env ''.'' ''package'') ''conda'')
           \<and> (\<forall>c. FileWritten Control (path_join (install_path sample_env ''.'' ''package'')
                       (update_file (os_name sample_env))) c \<in> set evs
                 \<longrightarrow> c = file_mark (os_name sample_env) @ preamble_block None
                         @ (if PyList [''flask''] \<noteq> PyNone then pip_section (os_name sample_env) else [])))"
proof -
  have norm: "normalize_input sample_env (RawMapping [(''pip'', PyList [''flask''])])
      = Inr (None, PyList [''flask''])"
    by (simp add: normalize_input_def dict_get_def)
  show ?thesis
    using norm absent_conda_skips_conda_phase [OF norm surjective_pairing] by (intro conjI)
qed

text \<open>
  C3 as stated fails for an empty list: the guard of line 104 is \<^verbatim>\<open>is not None\<close>, which \<^verbatim>\<open>[]\<close>
  passes. For \<^verbatim>\<open>{conda: []}\<close> the run creates \<^verbatim>\<open>conda/\<close>, queries conda, invokes the solver
  with no specifier and writes a conda section into the script.
\<close>

theorem empty_conda_list_still_runs_conda_phase:
  "normalize_input sample_env (RawMapping [(''conda'', PyList [])]) = Inr (Some [], PyNone)
   \<and> trace (snd (generate_offline_install_package sample_env (RawMapping [(''conda'', PyList [])])
        ''.'' ''package'' False True None empty_disk))
     = [MadeDir ''/work/package'', MadeDir ''/work/package/conda'', CondaInfoQueried,
        SolverInvoked (JStr ''/opt/conda/envs/dev'') [''defaults''] [],
        FileWritten Control ''/work/package/update.sh''
          (''#!/bin/bash'' @ NL @ ''# install conda packages'' @ NL
           @ ''conda install  --offline'' @ NL)]"
  by (simp add: run_defs sample_defs)

lemma segments_quiet_pip:
  assumes "segments env ip conda pip e1 e2 e3" and "\<not> truthy pip"
  shows "e3 = []" and "\<forall>ev \<in> set (e1 @ e2 @ e3). \<not> pip_event (path_join ip ''pip'') ev"
proof -
  from assms have e1: "set e1 \<subseteq> {MadeDir ip}" and e3: "e3 = []"
    and e2: "\<forall>ev \<in> set e2. conda_event (path_join ip ''conda'') ev"
    by (simp_all add: segments_def list_all_iff)
  show "e3 = []" by (rule e3)
  show "\<forall>ev \<in> set (e1 @ e2 @ e3). \<not> pip_event (path_join ip ''pip'') ev"
    using e1 e2 e3 conda_event_not_pip [of ip] path_distinct(2) [of ip] by auto
qed

lemma logged_dir:
  assumes "logged s s' evs" and "fs s' p = Some Dir"
  shows "fs s p = Some Dir \<or> MadeDir p \<in> set evs"
  using assms unfolding logged_def by blast

lemma no_pip_event_no_pip_dir:
  assumes "\<forall>ev \<in> set evs. \<not> pip_event loc ev"
  shows "MadeDir loc \<notin> set evs"
proof
  assume "MadeDir loc \<in> set evs"
  with assms have "\<not> pip_event loc (MadeDir loc)" by blast
  then show False by simp
qed

text \<open>
  C10. When the pip dependency list is present but empty, the run has no step of the pip
  phase: the \<^verbatim>\<open>pip/\<close> directory is not created, the pip subprocess is not run and
  \<^verbatim>\<open>requirements.txt\<close> is not written; yet the script of a run that succeeds ends with the
  pip section, which refers to \<^verbatim>\<open>pip/downloaded\<close> and \<^verbatim>\<open>pip/requirements.txt\<close>.
\<close>

theorem empty_pip_list_keeps_pip_section:
  assumes "normalize_input env packages = Inr (conda, PyList [])"
      and "generate_offline_install_package env packages loc name compress ok pre s = (r, s')"
  shows "\<exists>evs. trace s' = trace s @ evs
           \<and> list_all (\<lambda>ev. \<not> pip_event (path_join (install_path env loc name) ''pip'') ev) evs
           \<and> (fs s' (path_join (install_path env loc name) ''pip'') = Some Dir
                \<longrightarrow> fs s (path_join (install_path env loc name) ''pip'') = Some Dir)
           \<and> (r = Inr () \<longrightarrow>
                (\<exists>body. FileWritten Control (path_join (install_path env loc name) (update_file (os_name env)))
                           (body @ pip_section (os_name env)) \<in> set evs
                      \<and> fs s' (path_join (install_path env loc name) (update_file (os_name env)))
                          = Some (File (body @ pip_section (os_name env)))))"
proof -
  let ?ip = "install_path env loc name"
  let ?pl = "path_join ?ip ''pip''"
  let ?sc = "path_join ?ip (update_file (os_name env))"
  let ?body = "file_mark (os_name env) @ preamble_block pre
      @ (case recorded_listing env conda of None \<Rightarrow> [] | Some l \<Rightarrow> conda_section (os_name env) l)"
  have run: "write_bundle env ?ip compress ok pre conda (PyList []) s = (r, s')"
    using assms(2) by (simp add: generate_is_write_bundle [OF assms(1)])
  have content: "script_text (os_name env) pre (recorded_listing env conda) (PyList [])
      = ?body @ pip_section (os_name env)"
    by (simp add: script_text_sections)
  have falsy: "\<not> truthy (PyList [])" by simp
  from run show ?thesis
  proof (cases rule: write_bundle_run)
    case (aborted e1 e2 e3 e)
    note quiet = segments_quiet_pip [OF aborted(2) falsy]
    show ?thesis
    proof (intro exI [of _ "e1 @ e2 @ e3"] conjI impI)
      show "trace s' = trace s @ e1 @ e2 @ e3" using aborted(1) by (simp add: logged_def)
      show "list_all (\<lambda>ev. \<not> pip_event ?pl ev) (e1 @ e2 @ e3)"
        using quiet(2) by (simp add: list_all_iff)
      show "fs s ?pl = Some Dir" if "fs s' ?pl = Some Dir"
        using logged_dir [OF aborted(1) that] no_pip_event_no_pip_dir [OF quiet(2)] by blast
      show "\<exists>body. FileWritten Control ?sc (body @ pip_section (os_name env)) \<in> set (e1 @ e2 @ e3)
            \<and> fs s' ?sc = Some (File (body @ pip_section (os_name env)))" if "r = Inr ()"
        using that aborted(3) by simp
    qed
  next
    case (scripted e1 e2 e3 e5)
    note quiet = segments_quiet_pip [OF scripted(2) falsy]
    let ?x = "FileWritten Control ?sc (script_text (os_name env) pre (recorded_listing env conda) (PyList []))"
    let ?evs = "e1 @ e2 @ e3 @ ?x # e5"
    have set_evs: "set ?evs = set (e1 @ e2 @ e3) \<union> {?x} \<union> set e5" by auto
    have e5: "\<forall>ev \<in> set e5. ev = Archived (?ip @ ''.zip'')" using scripted(4) by auto
    have none: "\<forall>ev \<in> set ?evs. \<not> pip_event ?pl ev"
      unfolding set_evs using quiet(2) e5 path_distinct(10) [of ?ip "os_name env"] by auto
    show ?thesis
    proof (intro exI [of _ ?evs] conjI impI)
      show "trace s' = trace s @ ?evs" using scripted(1) by (simp add: logged_def)
      show "list_all (\<lambda>ev. \<not> pip_event ?pl ev) ?evs"
        using none by (simp only: list_all_iff)
      show "fs s ?pl = Some Dir" if "fs s' ?pl = Some Dir"
        using logged_dir [OF scripted(1) that] no_pip_event_no_pip_dir [OF none] by blast
      show "\<exists>body. FileWritten Control ?sc (body @ pip_section (os_name env)) \<in> set ?evs
            \<and> fs s' ?sc = Some (File (body @ pip_section (os_name env)))"
        using scripted(5) unfolding content by (intro exI [of _ ?body]) simp
    qed
  qed
qed

text \<open>The mapping \<^verbatim>\<open>{conda: ["numpy"], pip: []}\<close> on the sample host.\<close>

theorem empty_pip_list_keeps_pip_section_witness:
  "normalize_input sample_env (RawMapping [(''conda'', PyList [''numpy'']), (''pip'', PyList [])])
     = Inr (Some [Spec ''numpy''], PyList [])
   \<and> fst (generate_offline_install_package sample_env
        (RawMapping [(''conda'', PyList [''numpy'']), (''pip'', PyList [])])
        ''.'' ''package'' False True None empty_disk) = Inr ()
   \<and> (\<exists>evs. trace (snd (generate_offline_install_package sample_env
                 (RawMapping [(''conda'', PyList [''numpy'']), (''pip'', PyList [])])
                 ''.'' ''package'' False True None empty_disk)) = trace empty_disk @ evs
         \<and> list_all (\<lambda>ev. \<not> pip_event (path_join (install_path sample_env ''.'' ''package'') ''pip'') ev) evs
         \<and> (\<exists>body. FileWritten Control
                      (path_join (install_path sample_env ''.'' ''package'') (update_file (os_name sample_env)))
                      (body @ pip_section (os_name sample_env)) \<in> set evs
                \<and> fs (snd (generate_offline_install_package sample_env
                       (RawMapping [(''conda'', PyList [''numpy'']), (''pip'', PyList [])])
                       ''.'' ''package'' False True None empty_disk))
                     (path_join (install_path sample_env ''.'' ''package'') (update_file (os_name sample_env)))
                    = Some (File (body @ pip_section (os_name sample_env)))))"
proof -
  let ?pk = "RawMapping [(''conda'', PyList [''numpy'']), (''pip'', PyList [])]"
  let ?run = "generate_offline_install_package sample_env ?pk ''.'' ''package'' False True None empty_disk"
  have norm: "normalize_input sample_env ?pk = Inr (Some [Spec ''numpy''], PyList [])"
    by (simp add: normalize_input_def dict_get_def)
  have ok: "fst ?run = Inr ()" by (simp add: run_defs sample_defs)
  then have run: "?run = (Inr (), snd ?run)" by (simp add: prod_eq_iff)
  from empty_pip_list_keeps_pip_section [OF norm run]
  obtain evs where "trace (snd ?run) = trace empty_disk @ evs"
    and "list_all (\<lambda>ev. \<not> pip_event (path_join (install_path sample_env ''.'' ''package'') ''pip'') ev) evs"
    and "\<exists>body. FileWritten Control
                      (path_join (install_path sample_env ''.'' ''package'') (update_file (os_name sample_env)))
                      (body @ pip_section (os_name sample_env)) \<in> set evs
                \<and> fs (snd ?run)
                     (path_join (install_path sample_env ''.'' ''package'') (update_file (os_name sample_env)))
                    = Some (File (body @ pip_section (os_name sample_env)))"
    by blast
  then show ?thesis using norm ok by blast
qed

subsection \<open>Failure of the pip subprocess\<close>

lemma conda_event_touches:
  assumes "conda_event loc ev" and "touches p ev"
  shows "p = loc \<or> (\<exists>c. ev = FileWritten Worker p c)"
  using assms by (cases ev) auto

lemma segments_failed_pip_touches:
  assumes seg: "segments env ip conda pip e1 e2 e3"
      and nowrite: "\<forall>w p c. FileWritten w p c \<notin> set e3"
      and ev: "ev \<in> set (e1 @ e2 @ e3)" and t: "touches p ev"
  shows "p = ip \<or> p = path_join ip ''conda'' \<or> p = path_join ip ''pip''
         \<or> (\<exists>c. ev = FileWritten Worker p c)"
proof -
  from ev consider "ev \<in> set e1" | "ev \<in> set e2" | "ev \<in> set e3" by auto
  then show ?thesis
  proof cases
    case 1
    with seg have "ev = MadeDir ip" by (auto simp: segments_def)
    with t show ?thesis by simp
  next
    case 2
    from seg have "\<forall>ev \<in> set e2. conda_event (path_join ip ''conda'') ev"
      by (simp add: segments_def list_all_iff)
    with 2 have "conda_event (path_join ip ''conda'') ev" by blast
    from conda_event_touches [OF this t] show ?thesis by blast
  next
    case 3
    from seg have "\<forall>ev \<in> set e3. pip_event (path_join ip ''pip'') ev"
      by (simp add: segments_def list_all_iff)
    with 3 have pe: "pip_event (path_join ip ''pip'') ev" by blast
    from pe t 3 nowrite show ?thesis by (cases ev) auto
  qed
qed

lemma segments_no_control_write:
  assumes seg: "segments env ip conda pip e1 e2 e3"
      and nowrite: "\<forall>w p c. FileWritten w p c \<notin> set e3"
  shows "FileWritten Control p c \<notin> set (e1 @ e2 @ e3)"
proof
  let ?x = "FileWritten Control p c"
  assume "?x \<in> set (e1 @ e2 @ e3)"
  then consider "?x \<in> set e1" | "?x \<in> set e2" | "?x \<in> set e3" by auto
  then show False
  proof cases
    case 1
    with seg show False by (auto simp: segments_def)
  next
    case 2
    from seg have "\<forall>ev \<in> set e2. conda_event (path_join ip ''conda'') ev"
      by (simp add: segments_def list_all_iff)
    with 2 have "conda_event (path_join ip ''conda'') ?x" by blast
    then show False by simp
  next
    case 3
    with nowrite show False by blast
  qed
qed

lemma segments_pip_invoked_in_e3:
  assumes seg: "segments env ip conda pip e1 e2 e3"
      and "PipInvoked a \<in> set (e1 @ e2 @ e3)"
  shows "PipInvoked a \<in> set e3"
proof -
  from seg have e1: "set e1 \<subseteq> {MadeDir ip}"
    and e2: "\<forall>ev \<in> set e2. conda_event (path_join ip ''conda'') ev"
    by (simp_all add: segments_def list_all_iff)
  have "PipInvoked a \<notin> set e1" using e1 by auto
  moreover have "PipInvoked a \<notin> set e2"
  proof
    assume "PipInvoked a \<in> set e2"
    with e2 have "conda_event (path_join ip ''conda'') (PipInvoked a)" by blast
    then show False by simp
  qed
  ultimately show ?thesis using assms(2) by auto
qed

text \<open>
  C6. If the pip dependencies are non-empty and the pip download subprocess exits with a
  non-zero status, the run raises. The control thread writes no file at all in that run,
  so neither \<^verbatim>\<open>pip/requirements.txt\<close> nor the script: the disk at either path is what it was
  before the run (unless a conda download was itself directed at that path). Once the
  subprocess has been started its start is the last step of the run, and the error
  raised is \<^verbatim>\<open>CalledProcessError\<close> with the exit status.
\<close>

theorem pip_failure_aborts_before_writes:
  assumes "normalize_input env packages = Inr (conda, pip)"
      and "truthy pip"
      and "run_pip env (pip_argv env (path_join (install_path env loc name) ''pip'') (items pip)) \<noteq> 0"
      and "generate_offline_install_package env packages loc name compress ok pre s = (r, s')"
  shows "(\<exists>e. r = Inl e)
       \<and> (\<exists>evs. trace s' = trace s @ evs
            \<and> (\<forall>p c. FileWritten Control p c \<notin> set evs)
            \<and> (PipInvoked (pip_argv env (path_join (install_path env loc name) ''pip'') (items pip)) \<in> set evs
                 \<longrightarrow> r = Inl (CalledProcessError (run_pip env
                           (pip_argv env (path_join (install_path env loc name) ''pip'') (items pip))))
                   \<and> last evs = PipInvoked (pip_argv env (path_join (install_path env loc name) ''pip'') (items pip)))
            \<and> (\<forall>p \<in> {path_join (path_join (install_path env loc name) ''pip'') ''requirements.txt'',
                       path_join (install_path env loc name) (update_file (os_name env))}.
                  fs s' p = fs s p \<or> (\<exists>c. FileWritten Worker p c \<in> set evs)))"
proof -
  let ?ip = "install_path env loc name"
  let ?argv = "pip_argv env (path_join ?ip ''pip'') (items pip)"
  let ?rq = "path_join (path_join ?ip ''pip'') ''requirements.txt''"
  let ?sc = "path_join ?ip (update_file (os_name env))"
  have run: "write_bundle env ?ip compress ok pre conda pip s = (r, s')"
    using assms(4) by (simp add: generate_is_write_bundle [OF assms(1)])
  from run show ?thesis
  proof (cases rule: write_bundle_run)
    case (scripted e1 e2 e3 e5)
    with assms(2,3) show ?thesis by simp
  next
    case (aborted e1 e2 e3 e)
    from aborted(4) assms(2,3) have nowrite: "\<forall>w p c. FileWritten w p c \<notin> set e3"
      and at_pip: "PipInvoked ?argv \<in> set e3 \<longrightarrow>
          last e3 = PipInvoked ?argv \<and> r = Inl (CalledProcessError (run_pip env ?argv))"
      by simp_all
    let ?evs = "e1 @ e2 @ e3"
    have tr: "trace s' = trace s @ ?evs" using aborted(1) by (simp add: logged_def)
    have ctl: "\<forall>p c. FileWritten Control p c \<notin> set ?evs"
      using segments_no_control_write [OF aborted(2) nowrite] by blast
    have pip: "r = Inl (CalledProcessError (run_pip env ?argv)) \<and> last ?evs = PipInvoked ?argv"
      if "PipInvoked ?argv \<in> set ?evs"
    proof -
      have in3: "PipInvoked ?argv \<in> set e3"
        by (rule segments_pip_invoked_in_e3 [OF aborted(2) that])
      then have "e3 \<noteq> []" by auto
      then have "last ?evs = last e3" by simp
      with at_pip in3 show ?thesis by simp
    qed
    have disk: "fs s' p = fs s p \<or> (\<exists>c. FileWritten Worker p c \<in> set ?evs)"
      if p: "p = ?rq \<or> p = ?sc" for p
    proof (cases "fs s' p = fs s p")
      case True
      then show ?thesis by simp
    next
      case False
      with aborted(1) obtain ev where ev: "ev \<in> set ?evs" "touches p ev"
        unfolding logged_def by blast
      from segments_failed_pip_touches [OF aborted(2) nowrite ev]
      have "\<exists>c. ev = FileWritten Worker p c"
        using p path_distinct(4,5,6,7,8,9) [of ?ip] path_distinct(7,8,9) [of ?ip "os_name env"]
        by metis
      with ev(1) show ?thesis by blast
    qed
    show ?thesis
    proof (intro conjI exI [of _ ?evs] ballI impI)
      show "\<exists>e. r = Inl e" using aborted(3) by blast
      show "trace s' = trace s @ ?evs" by (rule tr)
      show "\<forall>p c. FileWritten Control p c \<notin> set ?evs" by (rule ctl)
      show "r = Inl (CalledProcessError (run_pip env ?argv))" if "PipInvoked ?argv \<in> set ?evs"
        using pip [OF that] by simp
      show "last ?evs = PipInvoked ?argv" if "PipInvoked ?argv \<in> set ?evs"
        using pip [OF that] by simp
      show "fs s' p = fs s p \<or> (\<exists>c. FileWritten Worker p c \<in> set ?evs)"
        if "p \<in> {?rq, ?sc}" for p
        using that by (intro disk) auto
    qed
  qed
qed

text \<open>The mapping \<^verbatim>\<open>{conda: ["numpy"], pip: ["flask"]}\<close> on the host whose pip exits with 1.\<close>

theorem pip_failure_aborts_before_writes_witness:
  "normalize_input pip_fails_env (RawMapping [(''conda'', PyList [''numpy'']), (''pip'', PyList [''flask''])])
     = Inr (Some [Spec ''numpy''], PyList [''flask''])
   \<and> truthy (PyList [''flask''])
   \<and> run_pip pip_fails_env (pip_argv pip_fails_env
         (path_join (install_path pip_fails_env ''.'' ''package'') ''pip'') (items (PyList [''flask'']))) \<noteq> 0
   \<and> (\<exists>e. fst (generate_offline_install_package pip_fails_env
           (RawMapping [(''conda'', PyList [''numpy'']), (''pip'', PyList [''flask''])])
           ''.'' ''package'' False True None empty_disk) = Inl e)
   \<and> (\<exists>evs. trace (snd (generate_offline_install_package pip_fails_env
           (RawMapping [(''conda'', PyList [''numpy'']), (''pip'', PyList [''flask''])])
           ''.'' ''package'' False True None empty_disk)) = trace empty_disk @ evs
         \<and> (\<forall>p c. FileWritten Control p c \<notin> set evs))
   \<and> fs (snd (generate_offline_install_package pip_fails_env
           (RawMapping [(''conda'', PyList [''numpy'']), (''pip'', PyList [''flask''])])
           ''.'' ''package'' False True None empty_disk)) ''/work/package/pip/requirements.txt'' = None
   \<and> fs (snd (generate_offline_install_package pip_fails_env
           (RawMapping [(''conda'', PyList [''numpy'']), (''pip'', PyList [''flask''])])
           ''.'' ''package'' False True None empty_disk)) ''/work/package/update.sh'' = None"
proof -
  let ?pk = "RawMapping [(''conda'', PyList [''numpy'']), (''pip'', PyList [''flask''])]"
  let ?run = "generate_offline_install_package pip_fails_env ?pk ''.'' ''package'' False True None empty_disk"
  have norm: "normalize_input pip_fails_env ?pk = Inr (Some [Spec ''numpy''], PyList [''flask''])"
    by (simp add: normalize_input_def dict_get_def)
  have tr: "truthy (PyList [''flask''])" by simp
  have nz: "run_pip pip_fails_env (pip_argv pip_fails_env
         (path_join (install_path pip_fails_env ''.'' ''package'') ''pip'') (items (PyList [''flask'']))) \<noteq> 0"
    by (simp add: pip_fails_env_def)
  note main = pip_failure_aborts_before_writes [OF norm tr nz surjective_pairing,
      where compress = False and ok = True and pre = None and s = empty_disk]
  have disk: "fs (snd ?run) ''/work/package/pip/requirements.txt'' = None"
      "fs (snd ?run) ''/work/package/update.sh'' = None"
    by (simp_all add: run_defs sample_defs)
  from main have "\<exists>e. fst ?run = Inl e" by blast
  moreover from main have "\<exists>evs. trace (snd ?run) = trace empty_disk @ evs
         \<and> (\<forall>p c. FileWritten Control p c \<notin> set evs)" by blast
  ultimately show ?thesis using norm tr nz disk by (intro conjI)
qed

subsection \<open>Order of the phases\<close>

lemma segments_all_joined:
  assumes "segments env ip conda pip e1 e2 e3"
  shows "all_joined (e1 @ e2 @ e3)"
proof -
  from assms have e1: "set e1 \<subseteq> {MadeDir ip}" and e2: "all_joined e2"
    and e3: "\<forall>ev \<in> set e3. pip_event (path_join ip ''pip'') ev"
    by (simp_all add: segments_def list_all_iff)
  have "all_joined e1" using e1 by (intro all_joined_quiet) auto
  moreover have "all_joined e3"
  proof (rule all_joined_quiet, intro ballI allI notI)
    fix ev u p assume "ev \<in> set e3" "ev = Submitted u p"
    with e3 have "pip_event (path_join ip ''pip'') (Submitted u p)" by blast
    then show False by simp
  qed
  ultimately show ?thesis using e2 by (intro all_joined_append)
qed

text \<open>
  C9. In every run, whatever its outcome, take any write of the script file by the
  control thread, with the events \<open>before\<close> it and \<open>after\<close> it in that run. Every download
  dispatched before it has finished before it (its worker has returned or raised), the
  pip subprocess, if the pip dependencies are non-empty, has been run before it, and no
  step of the conda phase or of the pip phase comes after it.
\<close>

theorem script_written_after_both_phases:
  assumes "normalize_input env packages = Inr (conda, pip)"
      and "generate_offline_install_package env packages loc name compress ok pre s = (r, s')"
      and "trace s' = trace s @ before
             @ FileWritten Control (path_join (install_path env loc name) (update_file (os_name env))) c
             # after"
  shows "all_joined before
       \<and> (truthy pip \<longrightarrow>
            PipInvoked (pip_argv env (path_join (install_path env loc name) ''pip'') (items pip)) \<in> set before)
       \<and> list_all (\<lambda>ev. \<not> conda_event (path_join (install_path env loc name) ''conda'') ev
                      \<and> \<not> pip_event (path_join (install_path env loc name) ''pip'') ev) after"
proof -
  let ?ip = "install_path env loc name"
  let ?sc = "path_join ?ip (update_file (os_name env))"
  let ?x = "FileWritten Control ?sc c"
  have run: "write_bundle env ?ip compress ok pre conda pip s = (r, s')"
    using assms(2) by (simp add: generate_is_write_bundle [OF assms(1)])
  from run show ?thesis
  proof (cases rule: write_bundle_run)
    case (aborted e1 e2 e3 e)
    from aborted(1) assms(3) have "e1 @ e2 @ e3 = before @ ?x # after"
      by (simp add: logged_def)
    then have "?x \<in> set (e1 @ e2 @ e3)" by simp
    with segments_no_script_write [OF aborted(2), of "os_name env" c] show ?thesis by blast
  next
    case (scripted e1 e2 e3 e5)
    let ?y = "FileWritten Control ?sc (script_text (os_name env) pre (recorded_listing env conda) pip)"
    from scripted(1) assms(3) have eq: "(e1 @ e2 @ e3) @ ?y # e5 = before @ ?x # after"
      by (simp add: logged_def)
    have out3: "?x \<notin> set (e1 @ e2 @ e3)"
      by (rule segments_no_script_write [OF scripted(2)])
    have out5: "?x \<notin> set e5" using scripted(4) by auto
    have "?x \<in> set ((e1 @ e2 @ e3) @ ?y # e5)" unfolding eq by simp
    with out3 out5 have same: "?y = ?x" by auto
    from eq have "before = e1 @ e2 @ e3 \<and> after = e5"
      unfolding same using append_Cons_eq_iff [OF out3 out5, of before after] by simp
    then have before: "before = e1 @ e2 @ e3" and after: "after = e5" by simp_all
    have "all_joined before" unfolding before by (rule segments_all_joined [OF scripted(2)])
    moreover have "truthy pip \<longrightarrow> PipInvoked (pip_argv env (path_join ?ip ''pip'') (items pip)) \<in> set before"
      unfolding before using scripted(3) by simp
    moreover have "list_all (\<lambda>ev. \<not> conda_event (path_join ?ip ''conda'') ev
                      \<and> \<not> pip_event (path_join ?ip ''pip'') ev) after"
      unfolding after using scripted(4) by auto
    ultimately show ?thesis by (intro conjI)
  qed
qed

text \<open>The descriptor of scenario B on the sample host: ten events precede the script.\<close>

theorem script_written_after_both_phases_witness:
  "normalize_input sample_env (DescriptorPath ''environment.yaml'')
     = Inr (Some [Spec ''numpy''], PyList [''flask''])
   \<and> trace (snd (generate_offline_install_package sample_env (DescriptorPath ''environment.yaml'')
         ''.'' ''package'' False True None empty_disk))
     = trace empty_disk
       @ [MadeDir ''/work/package'', MadeDir ''/work/package/conda'', CondaInfoQueried,
          SolverInvoked (JStr ''/opt/conda/envs/dev'') [''defaults''] [''numpy''],
          Submitted ''https://x/numpy-1.0.tar.bz2'' ''numpy-1.0.tar.bz2'',
          FileWritten Worker ''/work/package/conda/numpy-1.0.tar.bz2'' ''tarball'',
          TaskDone ''https://x/numpy-1.0.tar.bz2'' ''numpy-1.0.tar.bz2'',
          MadeDir ''/work/package/pip'',
          PipInvoked [''python'', ''-m'', ''pip'', ''download'', ''flask'', ''-d'',
                      ''/work/package/pip/downloaded''],
          FileWritten Control ''/work/package/pip/requirements.txt'' ''flask'']
       @ FileWritten Control ''/work/package/update.sh''
           (script_text ''posix'' None (Some [''conda/numpy-1.0.tar.bz2'']) (PyList [''flask'']))
       # []
   \<and> all_joined
        [MadeDir ''/work/package'', MadeDir ''/work/package/conda'', CondaInfoQueried,
          SolverInvoked (JStr ''/opt/conda/envs/dev'') [''defaults''] [''numpy''],
          Submitted ''https://x/numpy-1.0.tar.bz2'' ''numpy-1.0.tar.bz2'',
          FileWritten Worker ''/work/package/conda/numpy-1.0.tar.bz2'' ''tarball'',
          TaskDone ''https://x/numpy-1.0.tar.bz2'' ''numpy-1.0.tar.bz2'',
          MadeDir ''/work/package/pip'',
          PipInvoked [''python'', ''-m'', ''pip'', ''download'', ''flask'', ''-d'',
                      ''/work/package/pip/downloaded''],
          FileWritten Control ''/work/package/pip/requirements.txt'' ''flask'']"
proof -
  let ?run = "generate_offline_install_package sample_env (DescriptorPath ''environment.yaml'')
         ''.'' ''package'' False True None empty_disk"
  let ?before = "[MadeDir ''/work/package'', MadeDir ''/work/package/conda'', CondaInfoQueried,
          SolverInvoked (JStr ''/opt/conda/envs/dev'') [''defaults''] [''numpy''],
          Submitted ''https://x/numpy-1.0.tar.bz2'' ''numpy-1.0.tar.bz2'',
          FileWritten Worker ''/work/package/conda/numpy-1.0.tar.bz2'' ''tarball'',
          TaskDone ''https://x/numpy-1.0.tar.bz2'' ''numpy-1.0.tar.bz2'',
          MadeDir ''/work/package/pip'',
          PipInvoked [''python'', ''-m'', ''pip'', ''download'', ''flask'', ''-d'',
                      ''/work/package/pip/downloaded''],
          FileWritten Control ''/work/package/pip/requirements.txt'' ''flask'']"
  let ?c = "script_text ''posix'' None (Some [''conda/numpy-1.0.tar.bz2'']) (PyList [''flask''])"
  have norm: "normalize_input sample_env (DescriptorPath ''environment.yaml'')
     = Inr (Some [Spec ''numpy''], PyList [''flask''])"
    by (simp add: run_defs sample_defs)
  have sc: "path_join (install_path sample_env ''.'' ''package'') (update_file (os_name sample_env))
      = ''/work/package/update.sh''"
    by (simp add: install_path_def path_join_def update_file_def sample_env_def)
  have tr: "trace (snd ?run) = trace empty_disk @ ?before @ FileWritten Control ''/work/package/update.sh'' ?c # []"
    by (simp add: run_defs sample_defs)
  have tr': "trace (snd ?run) = trace empty_disk @ ?before
      @ FileWritten Control (path_join (install_path sample_env ''.'' ''package'')
          (update_file (os_name sample_env))) ?c # []"
    unfolding sc by (rule tr)
  from script_written_after_both_phases [OF norm surjective_pairing tr']
  have "all_joined ?before" by blast
  with norm tr show ?thesis by (intro conjI)
qed

subsection \<open>A failed download\<close>

























end
